theory Spec2Isabelle
  imports Complex_Main
begin

section \<open>Bytes and text\<close>

text \<open>
  The handler of \<^verbatim>\<open>graylogHUB.py\<close> receives \<^verbatim>\<open>bytes\<close> from the socket and turns
  every chunk into a Python \<^verbatim>\<open>str\<close> with \<^verbatim>\<open>data.decode('utf-8')\<close>. Bytes are
  modelled as \<^typ>\<open>char\<close> (8 bits), a \<^verbatim>\<open>str\<close> as the list of its code points,
  so that \<^verbatim>\<open>len\<close>, \<^verbatim>\<open>find\<close> and slicing count what Python counts.
\<close>

type_synonym pystr = "nat list"

definition ascii :: "string \<Rightarrow> pystr" where
  "ascii s = map of_char s"

abbreviation (input) TAB :: nat where "TAB \<equiv> 9"
abbreviation (input) LF :: nat where "LF \<equiv> 10"
abbreviation (input) CR :: nat where "CR \<equiv> 13"
abbreviation (input) SPACE :: nat where "SPACE \<equiv> 32"
abbreviation (input) QUOTE :: nat where "QUOTE \<equiv> 34"
abbreviation (input) PLUS :: nat where "PLUS \<equiv> 43"
abbreviation (input) COMMA :: nat where "COMMA \<equiv> 44"
abbreviation (input) MINUS :: nat where "MINUS \<equiv> 45"
abbreviation (input) DOT :: nat where "DOT \<equiv> 46"
abbreviation (input) SLASH :: nat where "SLASH \<equiv> 47"
abbreviation (input) ZERO :: nat where "ZERO \<equiv> 48"
abbreviation (input) COLON :: nat where "COLON \<equiv> 58"
abbreviation (input) LBRACKET :: nat where "LBRACKET \<equiv> 91"
abbreviation (input) BACKSLASH :: nat where "BACKSLASH \<equiv> 92"
abbreviation (input) RBRACKET :: nat where "RBRACKET \<equiv> 93"
abbreviation (input) LBRACE :: nat where "LBRACE \<equiv> 123"
abbreviation (input) RBRACE :: nat where "RBRACE \<equiv> 125"

subsection \<open>\<^verbatim>\<open>bytes.decode('utf-8')\<close>\<close>

text \<open>
  The strict UTF-8 decoder of Python: \<open>None\<close> stands for \<^verbatim>\<open>UnicodeDecodeError\<close>.
  A lead byte fixes the length of the sequence; continuation bytes are \<open>0x80..0xBF\<close>;
  overlong forms, surrogates (\<open>U+D800..U+DFFF\<close>) and code points beyond \<open>U+10FFFF\<close>
  are rejected through the range of the second byte; a sequence cut off by the end of
  the input is an error as well.
\<close>

definition cont :: "nat \<Rightarrow> bool" where
  "cont b \<longleftrightarrow> 128 \<le> b \<and> b \<le> 191"

definition second3 :: "nat \<Rightarrow> nat \<Rightarrow> bool" where
  "second3 b0 b1 \<longleftrightarrow>
     (if b0 = 224 then 160 \<le> b1 \<and> b1 \<le> 191
      else if b0 = 237 then 128 \<le> b1 \<and> b1 \<le> 159
      else cont b1)"

definition second4 :: "nat \<Rightarrow> nat \<Rightarrow> bool" where
  "second4 b0 b1 \<longleftrightarrow>
     (if b0 = 240 then 144 \<le> b1 \<and> b1 \<le> 191
      else if b0 = 244 then 128 \<le> b1 \<and> b1 \<le> 143
      else cont b1)"

fun utf8 :: "nat list \<Rightarrow> pystr option" where
  "utf8 [] = Some []"
| "utf8 (b0 # bs) =
     (if b0 < 128 then map_option ((#) b0) (utf8 bs)
      else if 194 \<le> b0 \<and> b0 \<le> 223 then
        (case bs of
           b1 # r \<Rightarrow>
             if cont b1
             then map_option ((#) ((b0 - 192) * 64 + (b1 - 128))) (utf8 r)
             else None
         | _ \<Rightarrow> None)
      else if 224 \<le> b0 \<and> b0 \<le> 239 then
        (case bs of
           b1 # b2 # r \<Rightarrow>
             if second3 b0 b1 \<and> cont b2
             then map_option
                    ((#) ((b0 - 224) * 4096 + (b1 - 128) * 64 + (b2 - 128))) (utf8 r)
             else None
         | _ \<Rightarrow> None)
      else if 240 \<le> b0 \<and> b0 \<le> 244 then
        (case bs of
           b1 # b2 # b3 # r \<Rightarrow>
             if second4 b0 b1 \<and> cont b2 \<and> cont b3
             then map_option
                    ((#) ((b0 - 240) * 262144 + (b1 - 128) * 4096 + (b2 - 128) * 64
                          + (b3 - 128))) (utf8 r)
             else None
         | _ \<Rightarrow> None)
      else None)"

definition utf8_decode :: "string \<Rightarrow> pystr option" where
  "utf8_decode data = utf8 (map of_char data)"

section \<open>The library call \<^verbatim>\<open>json.loads\<close>\<close>

text \<open>
  \<^verbatim>\<open>json.loads\<close> belongs to the Python standard library, not to this repository. The
  program looks at three things only: whether the call returns, whether it raises
  \<^verbatim>\<open>JSONDecodeError\<close> with the message \<^verbatim>\<open>Extra data\<close> (and then at the character
  position \<^verbatim>\<open>pos\<close> printed at the end of the message), or whether it raises anything
  else. The program model below takes the function as a parameter of the environment,
  with this result type; \<open>OtherError\<close> is an exception that is not a
  \<^verbatim>\<open>JSONDecodeError\<close> (\<^verbatim>\<open>RecursionError\<close> on deeply nested input).
\<close>

datatype loads_result = Parsed | ExtraData nat | DecodeError | OtherError

subsection \<open>A reference model of the decoder\<close>

text \<open>
  For concrete runs, \<open>json_loads\<close> models the decoder
  of CPython's \<^verbatim>\<open>json\<close> package in its default configuration (strict strings; the
  literals \<^verbatim>\<open>NaN\<close>, \<^verbatim>\<open>Infinity\<close> and \<^verbatim>\<open>-Infinity\<close> accepted): leading white space is
  skipped, one value is scanned, trailing white space is skipped, and anything left is
  \<^verbatim>\<open>Extra data\<close> at the position where it starts. Values are scanned one character
  at a time by an automaton with a stack of the open containers; a number at the top
  level is matched the way the decoder's regular expression matches it (the longest
  match, giving back an incomplete fraction or exponent). Two limits of the
  interpreter are not modelled: \<^verbatim>\<open>json.loads\<close> raises \<^verbatim>\<open>RecursionError\<close> on deeply nested
  input and \<^verbatim>\<open>ValueError\<close> on an integer of more than 4300 digits, where \<open>json_loads\<close>
  goes on scanning; it never answers \<open>OtherError\<close>. The model is therefore used for
  concrete runs on short texts only. Every statement about all records or all decoders
  says what it needs of the decoder as a hypothesis on \<open>loads E\<close>.
\<close>

definition ws :: "nat \<Rightarrow> bool" where
  "ws c \<longleftrightarrow> c = SPACE \<or> c = TAB \<or> c = LF \<or> c = CR"

definition digit :: "nat \<Rightarrow> bool" where
  "digit c \<longleftrightarrow> 48 \<le> c \<and> c \<le> 57"

definition digit19 :: "nat \<Rightarrow> bool" where
  "digit19 c \<longleftrightarrow> 49 \<le> c \<and> c \<le> 57"

definition hexdigit :: "nat \<Rightarrow> bool" where
  "hexdigit c \<longleftrightarrow> digit c \<or> (65 \<le> c \<and> c \<le> 70) \<or> (97 \<le> c \<and> c \<le> 102)"

definition exp_mark :: "nat \<Rightarrow> bool" where
  "exp_mark c \<longleftrightarrow> c = 101 \<or> c = 69"

definition escape_char :: "nat \<Rightarrow> bool" where
  "escape_char c \<longleftrightarrow> c \<in> set (ascii [CHR 0x22, CHR 0x5C, CHR ''/'', CHR ''b'', CHR ''f'',
      CHR ''n'', CHR ''r'', CHR ''t''])"

datatype numst = NMinus | NZero | NInt | NDot | NFrac | NE | NESign | NExp

datatype frame = InObj | InArr

datatype jst =
    JValue
  | JArrFirst
  | JObjFirst
  | JObjKey
  | JColon
  | JAfter
  | JStr bool
  | JEsc bool
  | JHex bool nat
  | JLit pystr
  | JNum numst

datatype jstep = Next jst "frame list" | Finish | Bad

definition complete :: "frame list \<Rightarrow> jstep" where
  "complete stk = (if stk = [] then Finish else Next JAfter stk)"

definition start_value :: "nat \<Rightarrow> frame list \<Rightarrow> jstep" where
  "start_value c stk =
     (if c = QUOTE then Next (JStr False) stk
      else if c = LBRACE then Next JObjFirst (InObj # stk)
      else if c = LBRACKET then Next JArrFirst (InArr # stk)
      else if c = of_char CHR ''n'' then Next (JLit (ascii ''ull'')) stk
      else if c = of_char CHR ''t'' then Next (JLit (ascii ''rue'')) stk
      else if c = of_char CHR ''f'' then Next (JLit (ascii ''alse'')) stk
      else if c = ZERO then Next (JNum NZero) stk
      else if digit19 c then Next (JNum NInt) stk
      else if c = MINUS then Next (JNum NMinus) stk
      else if c = of_char CHR ''N'' then Next (JLit (ascii ''aN'')) stk
      else if c = of_char CHR ''I'' then Next (JLit (ascii ''nfinity'')) stk
      else Bad)"

definition after_value :: "nat \<Rightarrow> frame list \<Rightarrow> jstep" where
  "after_value c stk =
     (if ws c then Next JAfter stk
      else case stk of
        [] \<Rightarrow> Bad
      | InObj # r \<Rightarrow>
          if c = COMMA then Next JObjKey stk
          else if c = RBRACE then complete r
          else Bad
      | InArr # r \<Rightarrow>
          if c = COMMA then Next JValue stk
          else if c = RBRACKET then complete r
          else Bad)"

definition end_number :: "nat \<Rightarrow> frame list \<Rightarrow> jstep" where
  "end_number c stk = (if stk = [] then Bad else after_value c stk)"

fun num_step :: "numst \<Rightarrow> nat \<Rightarrow> frame list \<Rightarrow> jstep" where
  "num_step NMinus c stk =
     (if c = ZERO then Next (JNum NZero) stk
      else if digit19 c then Next (JNum NInt) stk
      else if c = of_char CHR ''I'' then Next (JLit (ascii ''nfinity'')) stk
      else Bad)"
| "num_step NZero c stk =
     (if c = DOT then Next (JNum NDot) stk
      else if exp_mark c then Next (JNum NE) stk
      else end_number c stk)"
| "num_step NInt c stk =
     (if digit c then Next (JNum NInt) stk
      else if c = DOT then Next (JNum NDot) stk
      else if exp_mark c then Next (JNum NE) stk
      else end_number c stk)"
| "num_step NDot c stk = (if digit c then Next (JNum NFrac) stk else Bad)"
| "num_step NFrac c stk =
     (if digit c then Next (JNum NFrac) stk
      else if exp_mark c then Next (JNum NE) stk
      else end_number c stk)"
| "num_step NE c stk =
     (if c = PLUS \<or> c = MINUS then Next (JNum NESign) stk
      else if digit c then Next (JNum NExp) stk
      else Bad)"
| "num_step NESign c stk = (if digit c then Next (JNum NExp) stk else Bad)"
| "num_step NExp c stk = (if digit c then Next (JNum NExp) stk else end_number c stk)"

fun step :: "jst \<Rightarrow> frame list \<Rightarrow> nat \<Rightarrow> jstep" where
  "step JValue stk c = (if ws c then Next JValue stk else start_value c stk)"
| "step JArrFirst stk c =
     (if ws c then Next JArrFirst stk
      else if c = RBRACKET then complete (tl stk)
      else start_value c stk)"
| "step JObjFirst stk c =
     (if ws c then Next JObjFirst stk
      else if c = RBRACE then complete (tl stk)
      else if c = QUOTE then Next (JStr True) stk
      else Bad)"
| "step JObjKey stk c =
     (if ws c then Next JObjKey stk
      else if c = QUOTE then Next (JStr True) stk
      else Bad)"
| "step JColon stk c =
     (if ws c then Next JColon stk
      else if c = COLON then Next JValue stk
      else Bad)"
| "step JAfter stk c = after_value c stk"
| "step (JStr k) stk c =
     (if c = QUOTE then (if k then Next JColon stk else complete stk)
      else if c = BACKSLASH then Next (JEsc k) stk
      else if c < 32 then Bad
      else Next (JStr k) stk)"
| "step (JEsc k) stk c =
     (if escape_char c then Next (JStr k) stk
      else if c = of_char CHR ''u'' then Next (JHex k 4) stk
      else Bad)"
| "step (JHex k n) stk c =
     (if hexdigit c then (if n \<le> 1 then Next (JStr k) stk else Next (JHex k (n - 1)) stk)
      else Bad)"
| "step (JLit l) stk c =
     (case l of
        [] \<Rightarrow> Bad
      | x # r \<Rightarrow>
          if c = x then (if r = [] then complete stk else Next (JLit r) stk) else Bad)"
| "step (JNum n) stk c = num_step n c stk"

text \<open>
  \<open>run\<close> answers the input left after the value that starts the scan, or \<open>None\<close>
  when the value is malformed or the input ends inside it.
\<close>

fun run :: "jst \<Rightarrow> frame list \<Rightarrow> pystr \<Rightarrow> pystr option" where
  "run st stk [] = None"
| "run st stk (c # cs) =
     (case step st stk c of
        Next st' stk' \<Rightarrow> run st' stk' cs
      | Finish \<Rightarrow> Some cs
      | Bad \<Rightarrow> None)"

definition match_frac :: "pystr \<Rightarrow> pystr" where
  "match_frac s =
     (case s of
        c # d # r \<Rightarrow> if c = DOT \<and> digit d then dropWhile digit r else s
      | _ \<Rightarrow> s)"

definition match_exp :: "pystr \<Rightarrow> pystr" where
  "match_exp s =
     (case s of
        [] \<Rightarrow> s
      | c # r1 \<Rightarrow>
          if exp_mark c then
            (case (case r1 of
                     [] \<Rightarrow> r1
                   | sg # r \<Rightarrow> if sg = PLUS \<or> sg = MINUS then r else r1) of
               [] \<Rightarrow> s
             | d # r3 \<Rightarrow> if digit d then dropWhile digit r3 else s)
          else s)"

definition match_number :: "pystr \<Rightarrow> pystr option" where
  "match_number s =
     (case (case s of [] \<Rightarrow> s | c # r \<Rightarrow> if c = MINUS then r else s) of
        [] \<Rightarrow> None
      | d # r \<Rightarrow>
          if d = ZERO then Some (match_exp (match_frac r))
          else if digit19 d then Some (match_exp (match_frac (dropWhile digit r)))
          else None)"

definition raw_decode :: "pystr \<Rightarrow> pystr option" where
  "raw_decode s =
     (case match_number s of
        Some rest \<Rightarrow> Some rest
      | None \<Rightarrow> run JValue [] s)"

definition json_loads :: "pystr \<Rightarrow> loads_result" where
  "json_loads s =
     (if (case s of [] \<Rightarrow> False | c # _ \<Rightarrow> c = 65279) then DecodeError
      else case raw_decode (dropWhile ws s) of
        None \<Rightarrow> DecodeError
      | Some rest \<Rightarrow>
          (let r = dropWhile ws rest
           in if r = [] then Parsed else ExtraData (length s - length r)))"

section \<open>The program: class \<^verbatim>\<open>GELFForwarder\<close>\<close>

subsection \<open>Environment and state\<close>

text \<open>
  What the program does not decide is a parameter: the JSON decoder (see above), the
  answer of \<^verbatim>\<open>requests.post\<close> to the \<open>n\<close>-th request of the run (a response with its
  status code, a \<^verbatim>\<open>requests.RequestException\<close>, or another exception), and the value
  of \<^verbatim>\<open>time.time()\<close> at the \<open>n\<close>-th reading of the clock by the modelled code. Clock
  values are reals; rounding of floating point numbers is not modelled. The last
  parameter says whether \<^verbatim>\<open>socket.settimeout\<close> accepts a time-out: it raises
  \<^verbatim>\<open>ValueError\<close> for a negative one and \<^verbatim>\<open>OverflowError\<close> for one that is too large for
  the platform.
\<close>

datatype post_result = Response int | RequestException | OtherException

record env =
  loads :: "pystr \<Rightarrow> loads_result"
  post :: "nat \<Rightarrow> pystr \<Rightarrow> post_result"
  now :: "nat \<Rightarrow> real"
  settimeout :: "int \<Rightarrow> bool"

text \<open>The lines that \<^verbatim>\<open>log_metrics\<close> writes to the log, as one record per snapshot.\<close>

record metrics_report =
  messages_per_second :: real
  total_processed :: int
  total_failed :: int
  failure_rate :: real
  active_connections :: int

text \<open>
  The attributes of a \<^verbatim>\<open>GELFForwarder\<close> that the handler, the dispatcher and the
  metrics read or write, followed by a trace of the effects on the outside world:
  the messages handed to \<^verbatim>\<open>process_message\<close>, the bodies of the POST requests made
  (a parsed record is represented by the text it was parsed from), the arguments of
  \<^verbatim>\<open>time.sleep\<close>, the requests and the sleeps once more as one sequence in the order in
  which the calls are made, the snapshots logged, and the number of clock readings so
  far. \<^verbatim>\<open>metrics_interval\<close> is set to 60 by the constructor and never assigned again.
\<close>

datatype effect = Post pystr | Sleep int

record forwarder =
  max_message_size :: int
  connection_timeout :: int
  messages_processed :: int
  messages_failed :: int
  connections_handled :: int
  last_metrics_time :: real
  dispatched :: "pystr list"
  posted :: "pystr list"
  slept :: "int list"
  effects :: "effect list"
  reports :: "metrics_report list"
  time_calls :: nat

definition metrics_interval :: real where
  "metrics_interval = 60"

text \<open>
  The constructor, with the default \<^verbatim>\<open>connection_timeout\<close> of 60 and the given
  \<^verbatim>\<open>max_message_size\<close>.
\<close>

definition GELFForwarder :: "env \<Rightarrow> int \<Rightarrow> forwarder" where
  "GELFForwarder E max_size =
     \<lparr>max_message_size = max_size,
      connection_timeout = 60,
      messages_processed = 0,
      messages_failed = 0,
      connections_handled = 0,
      last_metrics_time = now E 0,
      dispatched = [],
      posted = [],
      slept = [],
      effects = [],
      reports = [],
      time_calls = 1\<rparr>"

subsection \<open>\<^verbatim>\<open>log_metrics\<close>\<close>

definition log_metrics :: "env \<Rightarrow> forwarder \<Rightarrow> forwarder" where
  "log_metrics E st =
     (let current_time = now E (time_calls st);
          elapsed = current_time - last_metrics_time st;
          st1 = st\<lparr>time_calls := Suc (time_calls st)\<rparr>
      in if elapsed \<ge> metrics_interval then
           st1\<lparr>reports := reports st @
                  [\<lparr>messages_per_second = real_of_int (messages_processed st) / elapsed,
                    total_processed = messages_processed st,
                    total_failed = messages_failed st,
                    failure_rate =
                      (if messages_processed st + messages_failed st > 0
                       then real_of_int (messages_failed st)
                            / real_of_int (messages_processed st + messages_failed st) * 100
                       else 0),
                    active_connections = connections_handled st\<rparr>],
               messages_processed := 0,
               messages_failed := 0,
               last_metrics_time := current_time\<rparr>
         else st1)"

subsection \<open>\<^verbatim>\<open>forward_to_function\<close>\<close>

text \<open>
  The result of the call: the response it returns (its status code), \<^verbatim>\<open>None\<close> when
  the \<^verbatim>\<open>for\<close> loop runs out, or an exception raised to the caller.
\<close>

datatype outcome = Returned int | ReturnedNone | Raised

definition retries :: nat where
  "retries = 3"

definition retry_delay :: int where
  "retry_delay = 1"

fun attempts :: "env \<Rightarrow> nat list \<Rightarrow> forwarder \<Rightarrow> pystr \<Rightarrow> outcome \<times> forwarder" where
  "attempts E [] st gelf_data = (ReturnedNone, st)"
| "attempts E (attempt # rest) st gelf_data =
     (let st1 = st\<lparr>posted := posted st @ [gelf_data],
                     effects := effects st @ [Post gelf_data]\<rparr>
      in case post E (length (posted st)) gelf_data of
           Response status_code \<Rightarrow> (Returned status_code, st1)
         | RequestException \<Rightarrow>
             if attempt = retries - 1 then (Raised, st1)
             else attempts E rest
                    (st1\<lparr>slept := slept st1 @ [retry_delay * (int attempt + 1)],
                        effects := effects st1 @ [Sleep (retry_delay * (int attempt + 1))]\<rparr>)
                    gelf_data
         | OtherException \<Rightarrow> (Raised, st1))"

definition forward_to_function :: "env \<Rightarrow> forwarder \<Rightarrow> pystr \<Rightarrow> outcome \<times> forwarder" where
  "forward_to_function E st gelf_data = attempts E [0..<retries] st gelf_data"

text \<open>The bodies of the requests in a sequence of effects, in their order.\<close>

fun posts :: "effect list \<Rightarrow> pystr list" where
  "posts [] = []"
| "posts (Post body # es) = body # posts es"
| "posts (Sleep t # es) = posts es"

subsection \<open>\<^verbatim>\<open>process_message\<close>\<close>

text \<open>
  Every exception is caught inside \<^verbatim>\<open>process_message\<close> (\<^verbatim>\<open>except Exception\<close> is its last
  handler), so the call always returns to the handler: the model is a total function
  on the state.
\<close>

definition count_failed :: "forwarder \<Rightarrow> forwarder" where
  "count_failed st = st\<lparr>messages_failed := messages_failed st + 1\<rparr>"

definition count_processed :: "forwarder \<Rightarrow> forwarder" where
  "count_processed st = st\<lparr>messages_processed := messages_processed st + 1\<rparr>"

definition process_message :: "env \<Rightarrow> forwarder \<Rightarrow> pystr \<Rightarrow> forwarder" where
  "process_message E st message =
     (let st0 = st\<lparr>dispatched := dispatched st @ [message]\<rparr>
      in case loads E message of
           Parsed \<Rightarrow>
             (case forward_to_function E st0 message of
                (Returned status_code, st1) \<Rightarrow>
                  log_metrics E
                    (if status_code \<notin> {200, 201, 202} then count_failed st1
                     else count_processed st1)
              | (ReturnedNone, st1) \<Rightarrow> count_failed st1
              | (Raised, st1) \<Rightarrow> count_failed st1)
         | ExtraData pos \<Rightarrow> count_failed st0
         | DecodeError \<Rightarrow> count_failed st0
         | OtherError \<Rightarrow> count_failed st0)"

subsection \<open>\<^verbatim>\<open>handle_client\<close>\<close>

text \<open>\<^verbatim>\<open>buffer.find('{')\<close>: the index of the first occurrence, \<open>None\<close> for \<open>-1\<close>.\<close>

fun str_find :: "nat \<Rightarrow> pystr \<Rightarrow> nat option" where
  "str_find c [] = None"
| "str_find c (x # xs) = (if x = c then Some 0 else map_option Suc (str_find c xs))"

text \<open>
  The inner \<^verbatim>\<open>while True\<close> loop. It is left by \<^verbatim>\<open>break\<close> with a value of \<^verbatim>\<open>buffer\<close>, or
  by an exception that is not a \<^verbatim>\<open>JSONDecodeError\<close> and reaches the handler of the outer
  loop. After \<^verbatim>\<open>Extra data\<close> the loop goes round again, so it is a partial function:
  \<open>None\<close> is a loop that never ends (a decoder that reports extra data at position 0
  of a text that starts with a brace would make it spin).
\<close>

datatype loop_exit = Break pystr | Propagate

partial_function (option)
  process_buffer :: "env \<Rightarrow> forwarder \<Rightarrow> pystr \<Rightarrow> (forwarder \<times> loop_exit) option"
where
  "process_buffer E st buffer =
     (case str_find LBRACE buffer of
        None \<Rightarrow> Some (st, Break [])
      | Some start \<Rightarrow>
          (case loads E (drop start buffer) of
             Parsed \<Rightarrow> Some (process_message E st (drop start buffer), Break [])
           | ExtraData pos \<Rightarrow>
               process_buffer E
                 (process_message E st (take pos (drop start buffer)))
                 (drop (start + pos) buffer)
           | DecodeError \<Rightarrow> Some (st, Break buffer)
           | OtherError \<Rightarrow> Some (st, Propagate)))"

text \<open>
  The outer loop, over what \<^verbatim>\<open>recv\<close> does next: it returns bytes (none when the peer
  has closed) or raises (time-out, socket error). The connection ends \<open>Closed\<close> when the
  loop is left; \<open>Reading buffer\<close> is a handler that has consumed all the events given
  and waits in \<^verbatim>\<open>recv\<close>, holding \<open>buffer\<close>; \<open>Died\<close> is a handler that an exception has
  left before the loop, without closing the socket.
\<close>

datatype recv_event = Recv string | RecvError

datatype connection = Reading pystr | Closed | Died

fun recv_loop ::
  "env \<Rightarrow> forwarder \<Rightarrow> pystr \<Rightarrow> recv_event list \<Rightarrow> (forwarder \<times> connection) option"
where
  "recv_loop E st buffer [] = Some (st, Reading buffer)"
| "recv_loop E st buffer (RecvError # evs) = Some (st, Closed)"
| "recv_loop E st buffer (Recv data # evs) =
     (if data = [] then Some (st, Closed)
      else case utf8_decode data of
        None \<Rightarrow> Some (st, Closed)
      | Some decoded_data \<Rightarrow>
          (case process_buffer E st (buffer @ decoded_data) of
             None \<Rightarrow> None
           | Some (st', Propagate) \<Rightarrow> Some (st', Closed)
           | Some (st', Break buffer') \<Rightarrow> recv_loop E st' buffer' evs))"

text \<open>
  The handler: \<^verbatim>\<open>client_socket.settimeout(self.connection_timeout)\<close> comes first and is
  outside every \<^verbatim>\<open>try\<close>, so when it raises the handler ends there, before the counter
  of connections is touched.
\<close>

definition handle_client ::
  "env \<Rightarrow> forwarder \<Rightarrow> recv_event list \<Rightarrow> (forwarder \<times> connection) option"
where
  "handle_client E st evs =
     (if settimeout E (connection_timeout st)
      then recv_loop E (st\<lparr>connections_handled := connections_handled st + 1\<rparr>) [] evs
      else Some (st, Died))"

text \<open>
  An environment for concrete runs: the decoder model, a server that answers 200, a
  clock that stands still, and sockets that accept the time-outs that fit into 63 bits
  of nanoseconds.
\<close>

definition accepts_timeout :: "int \<Rightarrow> bool" where
  "accepts_timeout t \<longleftrightarrow> 0 \<le> t \<and> t \<le> 9223372036"

definition py_env :: env where
  "py_env =
     \<lparr>loads = json_loads, post = (\<lambda>n body. Response 200), now = (\<lambda>n. 0),
      settimeout = accepts_timeout\<rparr>"

subsection \<open>Serialized records\<close>

text \<open>
  A record on the wire is the text of one JSON object, from its opening brace to the
  brace that closes it, with nothing before or after: the decoder model scans it
  completely and leaves no input.
\<close>

definition serialized_record :: "pystr \<Rightarrow> bool" where
  "serialized_record r \<longleftrightarrow>
     (case r of [] \<Rightarrow> False | c # _ \<Rightarrow> c = LBRACE) \<and> run JValue [] r = Some []"

text \<open>
  What the handler needs of a decoder to reassemble a record \<open>r\<close> that arrives in
  pieces: \<open>r\<close> starts with an opening brace, the decoder parses it, and on every
  beginning of \<open>r\<close> that is neither empty nor all of \<open>r\<close> it fails with a
  \<^verbatim>\<open>JSONDecodeError\<close> other than \<^verbatim>\<open>Extra data\<close>.
\<close>

definition frames_record :: "env \<Rightarrow> pystr \<Rightarrow> bool" where
  "frames_record E r \<longleftrightarrow>
     take 1 r = [LBRACE] \<and> loads E r = Parsed
     \<and> (\<forall>n \<in> {1..<length r}. loads E (take n r) = DecodeError)"

text \<open>
  A decoder that reports extra data only behind a value, which is at least one character
  long. \<^verbatim>\<open>json.loads\<close> is one: it raises \<^verbatim>\<open>Extra data\<close> at the end of the value it has
  decoded. With such a decoder every round of the extraction loop shortens the buffer.
\<close>

definition advancing :: "env \<Rightarrow> bool" where
  "advancing E \<longleftrightarrow> (\<forall>s pos. loads E s = ExtraData pos \<longrightarrow> 0 < pos)"

subsection \<open>The configured size limit\<close>

text \<open>The same forwarder constructed with another \<^verbatim>\<open>max_message_size\<close>.\<close>

definition with_limit :: "int \<Rightarrow> forwarder \<Rightarrow> forwarder" where
  "with_limit m st = st\<lparr>max_message_size := m\<rparr>"

text \<open>
  Further environments for concrete runs: a server that refuses every connection, one
  that answers 400, one whose clock reads 0, 60 and then 90, and a decoder that reports
  extra data after two characters of any longer text.
\<close>

definition refusing_env :: env where
  "refusing_env =
     \<lparr>loads = json_loads, post = (\<lambda>n body. RequestException), now = (\<lambda>n. 0),
      settimeout = accepts_timeout\<rparr>"

definition rejecting_env :: env where
  "rejecting_env =
     \<lparr>loads = json_loads, post = (\<lambda>n body. Response 400), now = (\<lambda>n. 0),
      settimeout = accepts_timeout\<rparr>"

definition ticking_env :: env where
  "ticking_env =
     \<lparr>loads = json_loads, post = (\<lambda>n body. Response 200),
      now = (\<lambda>n. if n = 0 then 0 else if n = 1 then 60 else 90),
      settimeout = accepts_timeout\<rparr>"

definition hasty_env :: env where
  "hasty_env =
     \<lparr>loads = (\<lambda>s. if length s > 2 then ExtraData 2 else DecodeError),
      post = (\<lambda>n body. Response 200), now = (\<lambda>n. 0), settimeout = accepts_timeout\<rparr>"

text \<open>A forwarder that has counted 8 delivered and 2 failed messages on one connection.\<close>

definition busy :: forwarder where
  "busy = (GELFForwarder ticking_env 1048576)
            \<lparr>messages_processed := 8, messages_failed := 2, connections_handled := 1\<rparr>"

section \<open>Properties\<close>

subsection \<open>Auxiliary facts\<close>

text \<open>The equations that evaluate the decoder model and the program on concrete input.\<close>

lemmas decoder_defs = json_loads_def raw_decode_def match_number_def match_exp_def
  match_frac_def ascii_def ws_def digit_def digit19_def hexdigit_def exp_mark_def
  escape_char_def complete_def start_value_def after_value_def end_number_def

lemmas program_defs = handle_client_def process_buffer.simps process_message_def
  forward_to_function_def log_metrics_def metrics_interval_def retries_def retry_delay_def
  count_failed_def count_processed_def GELFForwarder_def utf8_decode_def cont_def
  second3_def second4_def accepts_timeout_def

lemma str_find_None: "str_find c s = None \<longleftrightarrow> c \<notin> set s"
  by (induction s) auto

lemma str_find_Some:
  "str_find c s = Some i \<Longrightarrow> i < length s \<and> s ! i = c \<and> c \<notin> set (take i s)"
  by (induction s arbitrary: i) (auto split: if_splits)

lemma str_find_first: "take 1 s = [c] \<Longrightarrow> str_find c s = Some 0"
  by (cases s) auto

lemma range_retries: "[0..<retries] = [0, 1, 2]"
  unfolding retries_def by (simp add: upt_conv_Cons numeral_3_eq_3 numeral_2_eq_2)

lemma attempts_unroll: "forward_to_function E st d = attempts E [0, 1, 2] st d"
  by (simp only: forward_to_function_def range_retries)

text \<open>
  Whatever the server does, one call of the forwarder adds a sequence of effects that
  holds at most \<open>length as\<close> requests, all with the same body, and the list of requests
  grows by the requests of that sequence.
\<close>

lemma attempts_trace:
  "\<exists>tr. effects (snd (attempts E as st d)) = effects st @ tr
        \<and> posted (snd (attempts E as st d)) = posted st @ posts tr
        \<and> posts tr = replicate (length (posts tr)) d
        \<and> length (posts tr) \<le> length as"
proof (induction as arbitrary: st)
  case Nil
  show ?case by simp
next
  case (Cons a as)
  let ?st1 = "st\<lparr>posted := posted st @ [d], effects := effects st @ [Post d]\<rparr>"
  let ?sl = "retry_delay * (int a + 1)"
  let ?st2 = "?st1\<lparr>slept := slept ?st1 @ [?sl], effects := effects ?st1 @ [Sleep ?sl]\<rparr>"
  have one: "effects ?st1 = effects st @ [Post d] \<and> posted ?st1 = posted st @ posts [Post d]
      \<and> posts [Post d] = replicate (length (posts [Post d])) d
      \<and> length (posts [Post d]) \<le> length (a # as)"
    by simp
  show ?case
  proof (cases "post E (length (posted st)) d")
    case (Response s)
    with one show ?thesis by (intro exI [of _ "[Post d]"]) simp
  next
    case OtherException
    with one show ?thesis by (intro exI [of _ "[Post d]"]) simp
  next
    case RequestException
    show ?thesis
    proof (cases "a = retries - 1")
      case True
      with RequestException one show ?thesis by (intro exI [of _ "[Post d]"]) simp
    next
      case False
      from Cons.IH [of ?st2] obtain tr where tr:
        "effects (snd (attempts E as ?st2 d)) = effects ?st2 @ tr"
        "posted (snd (attempts E as ?st2 d)) = posted ?st2 @ posts tr"
        "posts tr = replicate (length (posts tr)) d"
        "length (posts tr) \<le> length as" by blast
      have p: "posts (Post d # Sleep ?sl # tr) = replicate (length (posts (Post d # Sleep ?sl # tr))) d"
        using tr(3) by simp
      from False RequestException tr p show ?thesis
        by (intro exI [of _ "Post d # Sleep ?sl # tr"]) (simp add: Let_def)
    qed
  qed
qed

lemma posted_attempts:
  "\<exists>k \<le> length as. posted (snd (attempts E as st d)) = posted st @ replicate k d"
proof -
  from attempts_trace [of E as st d] obtain tr where
    "posted (snd (attempts E as st d)) = posted st @ posts tr"
    "posts tr = replicate (length (posts tr)) d" "length (posts tr) \<le> length as" by blast
  then show ?thesis by (intro exI [of _ "length (posts tr)"]) simp
qed

subsection \<open>The decoder model\<close>

text \<open>
  The automaton reads its input once, from left to right, and stops at the end of the
  value: what follows the value does not change the scan, and a value is never empty.
\<close>

lemma run_append: "run st stk s = Some rest \<Longrightarrow> run st stk (s @ t) = Some (rest @ t)"
  by (induction s arbitrary: st stk) (auto split: jstep.splits)

lemma run_shorter: "run st stk s = Some rest \<Longrightarrow> length rest < length s"
  by (induction s arbitrary: st stk) (fastforce split: jstep.splits)+

lemma length_dropWhile_le': "length (dropWhile P s) \<le> length s"
  by (induction s) auto

lemma match_frac_le: "length (match_frac s) \<le> length s"
  unfolding match_frac_def
  by (auto split: list.splits intro: le_trans [OF length_dropWhile_le'])

lemma match_exp_le: "length (match_exp s) \<le> length s"
  unfolding match_exp_def
  by (auto split: list.splits if_splits intro: le_trans [OF length_dropWhile_le'])

lemma match_number_shorter: "match_number s = Some rest \<Longrightarrow> length rest < length s"
proof -
  have *: "length (match_exp (match_frac r)) \<le> length r" for r
    using match_exp_le [of "match_frac r"] match_frac_le [of r] by linarith
  have **: "length (match_exp (match_frac (dropWhile digit r))) \<le> length r" for r
    using * [of "dropWhile digit r"] length_dropWhile_le' [of digit r] by linarith
  assume "match_number s = Some rest"
  then show ?thesis
    unfolding match_number_def
    using * **
    by (auto split: list.splits if_splits simp: le_imp_less_Suc less_SucI)
qed

lemma raw_decode_shorter: "raw_decode s = Some rest \<Longrightarrow> length rest < length s"
  unfolding raw_decode_def
  by (auto split: option.splits dest: match_number_shorter run_shorter)

lemma extra_data_pos:
  assumes "json_loads s = ExtraData pos"
  shows "0 < pos"
proof -
  from assms obtain rest where rd: "raw_decode (dropWhile ws s) = Some rest"
    and pos: "pos = length s - length (dropWhile ws rest)"
    unfolding json_loads_def by (auto split: if_splits option.splits simp: Let_def)
  have "length (dropWhile ws rest) \<le> length rest" by (rule length_dropWhile_le')
  moreover have "length rest < length (dropWhile ws s)" using rd by (rule raw_decode_shorter)
  moreover have "length (dropWhile ws s) \<le> length s" by (rule length_dropWhile_le')
  ultimately show ?thesis using pos by linarith
qed

lemma json_loads_no_other: "json_loads s \<noteq> OtherError"
  unfolding json_loads_def by (auto split: option.splits simp: Let_def)

lemma record_brace: "serialized_record r \<Longrightarrow> \<exists>cs. r = LBRACE # cs"
  unfolding serialized_record_def by (cases r) auto

lemma brace_raw_decode: "raw_decode (LBRACE # cs) = run JValue [] (LBRACE # cs)"
  by (simp add: raw_decode_def match_number_def digit19_def)

lemma brace_loads:
  "json_loads (LBRACE # cs) =
     (case run JValue [] (LBRACE # cs) of
        None \<Rightarrow> DecodeError
      | Some rest \<Rightarrow>
          if dropWhile ws rest = [] then Parsed
          else ExtraData (length (LBRACE # cs) - length (dropWhile ws rest)))"
  unfolding json_loads_def
  by (simp add: brace_raw_decode ws_def Let_def split: option.split del: run.simps)

lemma record_loads: "serialized_record r \<Longrightarrow> json_loads r = Parsed"
  by (auto simp: serialized_record_def brace_loads split: list.splits simp del: run.simps)

lemma record_then_more:
  assumes "serialized_record r" and "t \<noteq> []" and "\<not> ws (hd t)"
  shows "json_loads (r @ t) = ExtraData (length r)"
proof -
  from assms(1) obtain cs where r: "r = LBRACE # cs" by (auto dest: record_brace)
  from assms(1) have "run JValue [] r = Some []" by (simp add: serialized_record_def)
  then have run: "run JValue [] (r @ t) = Some t" using run_append [of JValue "[]" r "[]" t] by simp
  from assms(2,3) have dw: "dropWhile ws t = t" by (cases t) auto
  have "json_loads (LBRACE # (cs @ t)) = ExtraData (length r)"
    unfolding brace_loads using run assms(2) by (simp add: r dw del: run.simps)
  then show ?thesis by (simp add: r)
qed

lemma record_prefix:
  assumes "serialized_record r" and "r = p @ q" and "p \<noteq> []" and "q \<noteq> []"
  shows "json_loads p = DecodeError \<and> str_find LBRACE p = Some 0"
proof -
  from assms(1) obtain cs where r: "r = LBRACE # cs" by (auto dest: record_brace)
  with assms(2,3) obtain ps where p: "p = LBRACE # ps" by (cases p) auto
  from assms(1) have full: "run JValue [] (p @ q) = Some []"
    by (simp add: serialized_record_def assms(2))
  have "run JValue [] p = None"
  proof (cases "run JValue [] p")
    case (Some rest)
    from run_append [OF this, of q] full assms(4) show ?thesis by simp
  qed simp
  then show ?thesis by (simp add: p brace_loads del: run.simps)
qed

text \<open>
  Hence the decoder model has what the handler needs of a decoder: it frames every
  serialized record, it reports the boundary between two of them, and it reports extra
  data only behind a value.
\<close>

lemma model_frames_record:
  assumes "loads E = json_loads" and "serialized_record r"
  shows "frames_record E r"
proof -
  from assms(2) obtain cs where r: "r = LBRACE # cs" by (auto dest: record_brace)
  have "loads E (take n r) = DecodeError" if "n \<in> {1..<length r}" for n
  proof -
    from that have "take n r \<noteq> []" "drop n r \<noteq> []" by auto
    from record_prefix [OF assms(2) _ this] assms(1) show ?thesis by simp
  qed
  with assms r show ?thesis by (simp add: frames_record_def record_loads)
qed

lemma model_boundary:
  assumes "loads E = json_loads" and "serialized_record r1" and "serialized_record r2"
  shows "loads E (r1 @ r2) = ExtraData (length r1)"
proof -
  from assms(3) obtain ds where "r2 = LBRACE # ds" by (auto dest: record_brace)
  then have "r2 \<noteq> []" "\<not> ws (hd r2)" by (simp_all add: ws_def)
  from record_then_more [OF assms(2) this] assms(1) show ?thesis by simp
qed

lemma model_advancing: "loads E = json_loads \<Longrightarrow> advancing E"
  by (auto simp: advancing_def dest: extra_data_pos)

subsection \<open>What the dispatcher and the loops leave alone\<close>

lemma attempts_keeps:
  "connections_handled (snd (attempts E as st d)) = connections_handled st
   \<and> dispatched (snd (attempts E as st d)) = dispatched st"
  by (induction as arbitrary: st) (auto simp: Let_def split: post_result.splits)

lemma forward_connections:
  "connections_handled (snd (forward_to_function E st d)) = connections_handled st"
  "dispatched (snd (forward_to_function E st d)) = dispatched st"
  by (simp_all add: forward_to_function_def attempts_keeps)

lemma log_metrics_frame:
  "connections_handled (log_metrics E st) = connections_handled st"
  "dispatched (log_metrics E st) = dispatched st"
  "posted (log_metrics E st) = posted st"
  by (simp_all add: log_metrics_def Let_def)

lemma process_message_connections:
  "connections_handled (process_message E st m) = connections_handled st"
proof -
  let ?st0 = "st\<lparr>dispatched := dispatched st @ [m]\<rparr>"
  have f: "connections_handled (snd (forward_to_function E ?st0 m)) = connections_handled st"
    by (simp add: forward_connections)
  show ?thesis
  proof (cases "loads E m")
    case Parsed
    obtain out st1 where r: "forward_to_function E ?st0 m = (out, st1)" by (cases "forward_to_function E ?st0 m")
    with f have "connections_handled st1 = connections_handled st" by simp
    with Parsed r show ?thesis
      by (cases out) (simp_all add: process_message_def log_metrics_frame count_failed_def count_processed_def)
  qed (simp_all add: process_message_def count_failed_def)
qed

lemma process_message_dispatched:
  "dispatched (process_message E st m) = dispatched st @ [m]"
proof -
  let ?st0 = "st\<lparr>dispatched := dispatched st @ [m]\<rparr>"
  have f: "dispatched (snd (forward_to_function E ?st0 m)) = dispatched st @ [m]"
    by (simp add: forward_connections)
  show ?thesis
  proof (cases "loads E m")
    case Parsed
    obtain out st1 where r: "forward_to_function E ?st0 m = (out, st1)" by (cases "forward_to_function E ?st0 m")
    with f have "dispatched st1 = dispatched st @ [m]" by simp
    with Parsed r show ?thesis
      by (cases out) (simp_all add: process_message_def log_metrics_frame count_failed_def count_processed_def)
  qed (simp_all add: process_message_def count_failed_def)
qed

lemma attempts_first:
  "as \<noteq> [] \<Longrightarrow> \<exists>k \<ge> 1. k \<le> length as \<and> posted (snd (attempts E as st d)) = posted st @ replicate k d"
proof (cases as)
  case (Cons a as')
  assume "as \<noteq> []"
  let ?st1 = "st\<lparr>posted := posted st @ [d], effects := effects st @ [Post d]\<rparr>"
  let ?st2 = "?st1\<lparr>slept := slept ?st1 @ [retry_delay * (int a + 1)],
      effects := effects ?st1 @ [Sleep (retry_delay * (int a + 1))]\<rparr>"
  from posted_attempts [of as' E ?st2 d] obtain k where k: "k \<le> length as'"
    "posted (snd (attempts E as' ?st2 d)) = posted ?st2 @ replicate k d" by blast
  have more: "posted (snd (attempts E as' ?st2 d)) = posted st @ replicate (Suc k) d"
    using k(2) by (simp add: replicate_app_Cons_same)
  show ?thesis
  proof (cases "post E (length (posted st)) d")
    case (Response s)
    then show ?thesis using Cons by (intro exI [of _ 1]) simp
  next
    case RequestException
    show ?thesis
    proof (cases "a = retries - 1")
      case True
      with RequestException Cons show ?thesis by (intro exI [of _ 1]) simp
    next
      case False
      with RequestException more k(1) Cons show ?thesis
        by (intro exI [of _ "Suc k"]) (simp add: Let_def)
    qed
  next
    case OtherException
    then show ?thesis using Cons by (intro exI [of _ 1]) simp
  qed
qed simp

lemma process_message_posted:
  assumes "loads E m = Parsed"
  shows "\<exists>k. 1 \<le> k \<and> k \<le> 3 \<and> posted (process_message E st m) = posted st @ replicate k m"
proof -
  let ?st0 = "st\<lparr>dispatched := dispatched st @ [m]\<rparr>"
  from attempts_first [of "[0, 1, 2]" E ?st0 m] obtain k where
    k: "1 \<le> k" "k \<le> 3" "posted (snd (forward_to_function E ?st0 m)) = posted st @ replicate k m"
    by (auto simp: attempts_unroll)
  obtain out st1 where r: "forward_to_function E ?st0 m = (out, st1)" by (cases "forward_to_function E ?st0 m")
  with k(3) have "posted st1 = posted st @ replicate k m" by simp
  with assms r have "posted (process_message E st m) = posted st @ replicate k m"
    by (cases out) (simp_all add: process_message_def log_metrics_frame count_failed_def count_processed_def)
  with k(1,2) show ?thesis by blast
qed

text \<open>
  With a decoder that reports extra data only behind a value the extraction loop always
  ends, and so does the handler on every finite sequence of events.
\<close>

lemma process_buffer_returns:
  assumes "advancing E"
  shows "\<exists>r. process_buffer E st buffer = Some r"
proof (induction "length buffer" arbitrary: st buffer rule: less_induct)
  case less
  show ?case
  proof (cases "str_find LBRACE buffer")
    case None
    then show ?thesis by (subst process_buffer.simps) simp
  next
    case (Some start)
    then have start: "start < length buffer" by (auto dest: str_find_Some)
    show ?thesis
    proof (cases "loads E (drop start buffer)")
      case Parsed
      with Some show ?thesis by (subst process_buffer.simps) simp
    next
      case (ExtraData pos)
      with assms have "0 < pos" by (auto simp: advancing_def)
      with start have "length (drop (start + pos) buffer) < length buffer" by simp
      from less [OF this] obtain r where
        "process_buffer E (process_message E st (take pos (drop start buffer)))
           (drop (start + pos) buffer) = Some r" by blast
      with Some ExtraData show ?thesis by (subst process_buffer.simps) simp
    next
      case DecodeError
      with Some show ?thesis by (subst process_buffer.simps) simp
    next
      case OtherError
      with Some show ?thesis by (subst process_buffer.simps) simp
    qed
  qed
qed

lemma recv_loop_returns:
  assumes "advancing E"
  shows "\<exists>st' c. recv_loop E st buffer evs = Some (st', c)"
proof (induction evs arbitrary: st buffer)
  case Nil
  show ?case by simp
next
  case (Cons ev evs)
  show ?case
  proof (cases ev)
    case RecvError
    then show ?thesis by simp
  next
    case (Recv data)
    show ?thesis
    proof (cases "data = [] \<or> utf8_decode data = None")
      case True
      with Recv show ?thesis by auto
    next
      case False
      then obtain s where s: "utf8_decode data = Some s" and ne: "data \<noteq> []" by auto
      from process_buffer_returns [OF assms, of st "buffer @ s"] obtain st' x where
        pb: "process_buffer E st (buffer @ s) = Some (st', x)" by fastforce
      show ?thesis
      proof (cases x)
        case (Break buffer')
        with Recv s ne pb Cons.IH [of st' buffer'] show ?thesis by simp
      next
        case Propagate
        with Recv s ne pb show ?thesis by simp
      qed
    qed
  qed
qed

lemma process_buffer_connections:
  assumes "process_buffer E st buffer = Some r"
  shows "connections_handled (fst r) = connections_handled st"
  apply (rule process_buffer.raw_induct
      [where P = "\<lambda>E st buffer r. connections_handled (fst r) = connections_handled st",
        OF _ assms])
  subgoal premises p for pb E st buffer r
    using p(2)
    by (auto split: option.splits loads_result.splits dest: p(1)
        simp: process_message_connections)
  done

lemma recv_loop_connections:
  "recv_loop E st buffer evs = Some (st', c) \<Longrightarrow> connections_handled st' = connections_handled st"
proof (induction evs arbitrary: st buffer)
  case Nil
  then show ?case by simp
next
  case (Cons ev evs)
  show ?case
  proof (cases ev)
    case RecvError
    with Cons.prems show ?thesis by simp
  next
    case (Recv data)
    show ?thesis
    proof (cases "data = [] \<or> utf8_decode data = None")
      case True
      with Recv Cons.prems show ?thesis by (auto split: if_splits)
    next
      case False
      then obtain s where s: "utf8_decode data = Some s" and ne: "data \<noteq> []" by auto
      show ?thesis
      proof (cases "process_buffer E st (buffer @ s)")
        case None
        with Recv s ne Cons.prems show ?thesis by simp
      next
        case (Some r)
        obtain st1 x where r: "r = (st1, x)" by (cases r)
        from process_buffer_connections [OF Some] r
        have c1: "connections_handled st1 = connections_handled st" by simp
        show ?thesis
        proof (cases x)
          case (Break b)
          with Recv s ne Some r Cons.prems have "recv_loop E st1 b evs = Some (st', c)" by simp
          from Cons.IH [OF this] c1 show ?thesis by simp
        next
          case Propagate
          with Recv s ne Some r Cons.prems c1 show ?thesis by simp
        qed
      qed
    qed
  qed
qed

subsection \<open>Records cut into chunks\<close>

text \<open>
  With a decoder that frames the record, a record that arrives in chunks each of which
  is valid UTF-8 on its own is handed to the dispatcher once, whole, when its last chunk
  has arrived; until then every parse fails, the buffer grows and nothing is dispatched.
  In particular this holds for every way of cutting a record of ASCII characters into
  chunks that are not empty.
\<close>

lemma utf8_nonempty: "utf8 bs = Some [] \<Longrightarrow> bs = []"
  by (cases bs) (auto split: if_splits list.splits)

lemma utf8_decode_nonempty: "utf8_decode d = Some [] \<Longrightarrow> d = []"
  unfolding utf8_decode_def by (auto dest: utf8_nonempty)

lemma utf8_ascii: "\<forall>b \<in> set bs. b < 128 \<Longrightarrow> utf8 bs = Some bs"
  by (induction bs) auto

lemma utf8_decode_ascii:
  "\<forall>c \<in> set d. of_char c < (128::nat) \<Longrightarrow> utf8_decode d = Some (ascii d)"
  unfolding utf8_decode_def ascii_def by (rule utf8_ascii) auto

lemma record_whole:
  assumes "take 1 r = [LBRACE]" and "loads E r = Parsed"
  shows "process_buffer E st r = Some (process_message E st r, Break [])"
proof -
  from assms(1) have "str_find LBRACE r = Some 0" by (rule str_find_first)
  with assms(2) show ?thesis by (subst process_buffer.simps) simp
qed

lemma record_partial:
  assumes "frames_record E r" and "r = p @ q" and "p \<noteq> []" and "q \<noteq> []"
  shows "process_buffer E st p = Some (st, Break p)"
proof -
  from assms(1) have b: "take 1 r = [LBRACE]"
    and f: "\<forall>n \<in> {1..<length r}. loads E (take n r) = DecodeError"
    by (simp_all add: frames_record_def)
  from b assms(2,3) have "take 1 p = [LBRACE]" by (cases p) auto
  then have s: "str_find LBRACE p = Some 0" by (rule str_find_first)
  from assms(2-4) have "length p \<in> {1..<length r}" by (cases p; cases q) auto
  with f have "loads E (take (length p) r) = DecodeError" by blast
  with assms(2) have "loads E (drop 0 p) = DecodeError" by simp
  with s show ?thesis by (subst process_buffer.simps) simp
qed

lemma record_reassembled:
  assumes "frames_record E r"
    and "list_all2 (\<lambda>d p. d \<noteq> [] \<and> utf8_decode d = Some p) chunks pieces"
    and "chunks \<noteq> []"
    and "buffer @ concat pieces = r"
  shows "recv_loop E st buffer (map Recv chunks @ evs) =
           recv_loop E (process_message E st r) [] evs"
  using assms(2-4)
proof (induction chunks pieces arbitrary: buffer rule: list_all2_induct)
  case Nil
  then show ?case by simp
next
  case (Cons d ds p ps)
  from assms(1) have whole: "take 1 r = [LBRACE]" "loads E r = Parsed"
    by (simp_all add: frames_record_def)
  from Cons.hyps(1) have d: "d \<noteq> []" "utf8_decode d = Some p" by simp_all
  then have p: "p \<noteq> []" by (auto dest: utf8_decode_nonempty)
  show ?case
  proof (cases ds)
    case Nil
    with Cons.hyps(2) have "ps = []" by simp
    with Cons.prems(2) have "buffer @ p = r" by simp
    with d Nil record_whole [OF whole, of st] show ?thesis by simp
  next
    case (Cons d' ds')
    with Cons.hyps(2) obtain p' ps' where ps: "ps = p' # ps'"
      and d': "d' \<noteq> []" "utf8_decode d' = Some p'"
      by (auto simp: list_all2_Cons1)
    from d' have "p' \<noteq> []" by (auto dest: utf8_decode_nonempty)
    with ps have q: "concat ps \<noteq> []" by simp
    from Cons.prems(2) have r: "r = (buffer @ p) @ concat ps" by simp
    from p have "buffer @ p \<noteq> []" by simp
    from record_partial [OF assms(1) r this q, of st]
    have "process_buffer E st (buffer @ p) = Some (st, Break (buffer @ p))" .
    with d have "recv_loop E st buffer (map Recv (d # ds) @ evs) =
        recv_loop E st (buffer @ p) (map Recv ds @ evs)" by simp
    also have "\<dots> = recv_loop E (process_message E st r) [] evs"
      using Cons.IH [of "buffer @ p"] Cons r by simp
    finally show ?thesis .
  qed
qed

lemma ascii_concat: "ascii (concat ds) = concat (map ascii ds)"
  by (induction ds) (simp_all add: ascii_def)

lemma ascii_record_any_split:
  assumes "frames_record E (ascii (concat chunks))"
    and "\<forall>d \<in> set chunks. d \<noteq> [] \<and> (\<forall>c \<in> set d. of_char c < (128::nat))"
    and "chunks \<noteq> []"
  shows "recv_loop E st [] (map Recv chunks @ evs) =
           recv_loop E (process_message E st (ascii (concat chunks))) [] evs"
proof -
  have "list_all2 (\<lambda>d p. d \<noteq> [] \<and> utf8_decode d = Some p) chunks (map ascii chunks)"
    using assms(2) by (induction chunks) (auto simp: utf8_decode_ascii)
  from record_reassembled [OF assms(1) this assms(3), of "[]" st evs]
  show ?thesis by (simp add: ascii_concat)
qed

subsection \<open>The size limit is never read\<close>

text \<open>
  \<^verbatim>\<open>max_message_size\<close> is assigned by the constructor and read nowhere: a handler run
  with another limit does exactly the same, diverging or returning the same connection
  state and the same forwarder but for the stored limit.
\<close>

lemma with_limit_sel:
  "connection_timeout (with_limit m st) = connection_timeout st"
  "messages_processed (with_limit m st) = messages_processed st"
  "messages_failed (with_limit m st) = messages_failed st"
  "connections_handled (with_limit m st) = connections_handled st"
  "last_metrics_time (with_limit m st) = last_metrics_time st"
  "dispatched (with_limit m st) = dispatched st"
  "posted (with_limit m st) = posted st"
  "slept (with_limit m st) = slept st"
  "effects (with_limit m st) = effects st"
  "reports (with_limit m st) = reports st"
  "time_calls (with_limit m st) = time_calls st"
  by (simp_all add: with_limit_def)

lemma with_limit_upd:
  "(with_limit m st)\<lparr>messages_processed := a\<rparr> = with_limit m (st\<lparr>messages_processed := a\<rparr>)"
  "(with_limit m st)\<lparr>messages_failed := a\<rparr> = with_limit m (st\<lparr>messages_failed := a\<rparr>)"
  "(with_limit m st)\<lparr>connections_handled := a\<rparr> = with_limit m (st\<lparr>connections_handled := a\<rparr>)"
  "(with_limit m st)\<lparr>last_metrics_time := t\<rparr> = with_limit m (st\<lparr>last_metrics_time := t\<rparr>)"
  "(with_limit m st)\<lparr>dispatched := ds\<rparr> = with_limit m (st\<lparr>dispatched := ds\<rparr>)"
  "(with_limit m st)\<lparr>posted := ps\<rparr> = with_limit m (st\<lparr>posted := ps\<rparr>)"
  "(with_limit m st)\<lparr>slept := sl\<rparr> = with_limit m (st\<lparr>slept := sl\<rparr>)"
  "(with_limit m st)\<lparr>effects := es\<rparr> = with_limit m (st\<lparr>effects := es\<rparr>)"
  "(with_limit m st)\<lparr>reports := rs\<rparr> = with_limit m (st\<lparr>reports := rs\<rparr>)"
  "(with_limit m st)\<lparr>time_calls := n\<rparr> = with_limit m (st\<lparr>time_calls := n\<rparr>)"
  by (simp_all add: with_limit_def)

lemma with_limit_back: "with_limit (max_message_size st) (with_limit m st) = st"
  by (simp add: with_limit_def)

lemma attempts_limit:
  "attempts E as (with_limit m st) d =
     (fst (attempts E as st d), with_limit m (snd (attempts E as st d)))"
  by (induction as arbitrary: st)
    (auto simp: Let_def with_limit_sel with_limit_upd split: post_result.splits)

lemma log_metrics_limit:
  "log_metrics E (with_limit m st) = with_limit m (log_metrics E st)"
  by (simp add: log_metrics_def Let_def with_limit_sel with_limit_upd)

lemma process_message_limit:
  "process_message E (with_limit m st) x = with_limit m (process_message E st x)"
proof -
  obtain out st1 where r:
    "attempts E [0..<retries] (st\<lparr>dispatched := dispatched st @ [x]\<rparr>) x = (out, st1)"
    by (cases "attempts E [0..<retries] (st\<lparr>dispatched := dispatched st @ [x]\<rparr>) x")
  show ?thesis
    by (cases "loads E x"; cases out)
      (simp_all add: process_message_def forward_to_function_def attempts_limit r
        log_metrics_limit count_failed_def count_processed_def with_limit_sel with_limit_upd)
qed

lemma process_buffer_limit_Some:
  assumes "process_buffer E st buffer = Some r"
  shows "process_buffer E (with_limit m st) buffer = Some (with_limit m (fst r), snd r)"
  apply (rule process_buffer.raw_induct
      [where P = "\<lambda>E st buffer r. process_buffer E (with_limit m st) buffer =
           Some (with_limit m (fst r), snd r)", OF _ assms])
  subgoal premises p for pb E st buffer r
    using p(2)
    by (subst process_buffer.simps)
      (auto split: option.splits loads_result.splits dest: p(1) simp: process_message_limit)
  done

lemma process_buffer_limit:
  "process_buffer E (with_limit m st) buffer =
     map_option (\<lambda>(s, x). (with_limit m s, x)) (process_buffer E st buffer)"
proof (cases "process_buffer E st buffer")
  case (Some r)
  from process_buffer_limit_Some [OF this, of m] Some show ?thesis by (cases r) simp
next
  case None
  have "process_buffer E (with_limit m st) buffer = None"
  proof (cases "process_buffer E (with_limit m st) buffer")
    case (Some r)
    from process_buffer_limit_Some [OF this, of "max_message_size st"] None
    show ?thesis by (simp add: with_limit_back)
  qed simp
  with None show ?thesis by simp
qed

lemma recv_loop_limit:
  "recv_loop E (with_limit m st) buffer evs =
     map_option (\<lambda>(s, c). (with_limit m s, c)) (recv_loop E st buffer evs)"
proof (induction evs arbitrary: st buffer)
  case Nil
  show ?case by simp
next
  case (Cons ev evs)
  show ?case
  proof (cases ev)
    case RecvError
    then show ?thesis by simp
  next
    case (Recv data)
    show ?thesis
    proof (cases "utf8_decode data")
      case None
      with Recv show ?thesis by simp
    next
      case (Some s)
      show ?thesis
      proof (cases "process_buffer E st (buffer @ s)")
        case None
        with Recv Some show ?thesis by (simp add: process_buffer_limit)
      next
        case pb: (Some r)
        obtain st1 x where r: "r = (st1, x)" by (cases r)
        with Recv Some pb Cons.IH show ?thesis
          by (cases x) (simp_all add: process_buffer_limit)
      qed
    qed
  qed
qed

lemma handle_client_ignores_limit:
  "handle_client E (with_limit m st) evs =
     map_option (\<lambda>(s, c). (with_limit m s, c)) (handle_client E st evs)"
  by (simp add: handle_client_def recv_loop_limit with_limit_sel with_limit_upd)

subsection \<open>The frame decoder on input without an opening brace\<close>

text \<open>
  Claim C6. When, after a chunk has been decoded and appended, the buffer holds no
  opening brace, the extraction loop hands nothing to the dispatcher (the state of the
  forwarder is unchanged) and leaves the buffer empty: the handler goes on to the next
  \<^verbatim>\<open>recv\<close> with an empty buffer. This holds for every JSON decoder, which is not
  even called.
\<close>

theorem no_brace_discards_buffer:
  assumes "data \<noteq> []"
    and "utf8_decode data = Some decoded_data"
    and "LBRACE \<notin> set (buffer @ decoded_data)"
  shows "process_buffer E st (buffer @ decoded_data) = Some (st, Break [])
       \<and> recv_loop E st buffer (Recv data # evs) = recv_loop E st [] evs"
proof -
  from assms(3) have "str_find LBRACE (buffer @ decoded_data) = None"
    by (simp add: str_find_None)
  then have "process_buffer E st (buffer @ decoded_data) = Some (st, Break [])"
    by (subst process_buffer.simps) simp
  with assms(1,2) show ?thesis by simp
qed

theorem no_brace_discards_buffer_witness:
  "''GET / HTTP/1.1'' \<noteq> []
   \<and> utf8_decode ''GET / HTTP/1.1'' = Some (ascii ''GET / HTTP/1.1'')
   \<and> LBRACE \<notin> set ([] @ ascii ''GET / HTTP/1.1'')
   \<and> recv_loop py_env (GELFForwarder py_env 1048576) [] [Recv ''GET / HTTP/1.1'']
       = Some (GELFForwarder py_env 1048576, Reading [])"
  using no_brace_discards_buffer [of "''GET / HTTP/1.1''" "ascii ''GET / HTTP/1.1''" "[]"
      py_env "GELFForwarder py_env 1048576" "[]"]
  by (simp add: utf8_decode_def ascii_def)

subsection \<open>Chunks that are not UTF-8 on their own\<close>

text \<open>
  Claim C9. Every chunk is decoded by itself. When a chunk that is not empty is not
  valid UTF-8 on its own, \<^verbatim>\<open>data.decode('utf-8')\<close> raises, the handler of the outer loop
  leaves the loop and the connection is closed: nothing is dispatched for the chunk,
  whatever the buffer held is gone, and no later chunk is read. The witness is the
  two-byte character U+00E9 cut between two chunks.
\<close>

theorem undecodable_chunk_closes_connection:
  assumes "data \<noteq> []" and "utf8_decode data = None"
  shows "recv_loop E st buffer (Recv data # evs) = Some (st, Closed)"
  using assms by simp

theorem undecodable_chunk_closes_connection_witness:
  \<open>''{"a":"'' @ [CHR 0xC3] \<noteq> []
   \<and> utf8_decode (''{"a":"'' @ [CHR 0xC3]) = None
   \<and> utf8_decode (''{"a":"'' @ [CHR 0xC3, CHR 0xA9] @ ''"}'')
        = Some (ascii ''{"a":"'' @ [233] @ ascii ''"}'')
   \<and> recv_loop py_env (GELFForwarder py_env 1048576) []
        [Recv (''{"a":"'' @ [CHR 0xC3]), Recv ([CHR 0xA9] @ ''"}'')]
       = Some (GELFForwarder py_env 1048576, Closed)\<close>
  using undecodable_chunk_closes_connection [of \<open>''{"a":"'' @ [CHR 0xC3]\<close> py_env
      "GELFForwarder py_env 1048576" "[]" \<open>[Recv ([CHR 0xA9] @ ''"}'')]\<close>]
  by (simp add: utf8_decode_def ascii_def cont_def)

subsection \<open>The dispatcher on text that does not parse\<close>

text \<open>
  Claim C7. When \<^verbatim>\<open>json.loads\<close> fails on the text given to \<^verbatim>\<open>process_message\<close>, the call
  adds one to \<^verbatim>\<open>messages_failed\<close> and changes nothing else: no request is posted, nothing
  sleeps, the clock is not read and no metrics are logged. The call returns to the
  handler, which does not close the connection: where the failing text was cut off in
  front of extra data, the extraction loop goes on with the rest of the buffer.
\<close>

theorem unparsable_message_counts_failed:
  assumes "loads E raw \<noteq> Parsed"
  shows "process_message E st raw =
           st\<lparr>messages_failed := messages_failed st + 1,
              dispatched := dispatched st @ [raw]\<rparr>
       \<and> posted (process_message E st raw) = posted st
       \<and> slept (process_message E st raw) = slept st
       \<and> reports (process_message E st raw) = reports st
       \<and> time_calls (process_message E st raw) = time_calls st
       \<and> (\<forall>buffer start pos.
             str_find LBRACE buffer = Some start
             \<and> loads E (drop start buffer) = ExtraData pos
             \<and> take pos (drop start buffer) = raw \<longrightarrow>
             process_buffer E st buffer =
               process_buffer E
                 (st\<lparr>messages_failed := messages_failed st + 1,
                    dispatched := dispatched st @ [raw]\<rparr>)
                 (drop (start + pos) buffer))"
proof -
  have pm: "process_message E st raw =
           st\<lparr>messages_failed := messages_failed st + 1,
              dispatched := dispatched st @ [raw]\<rparr>"
    using assms by (cases "loads E raw") (simp_all add: process_message_def count_failed_def)
  have loop: "process_buffer E st buffer =
               process_buffer E
                 (st\<lparr>messages_failed := messages_failed st + 1,
                    dispatched := dispatched st @ [raw]\<rparr>)
                 (drop (start + pos) buffer)"
    if "str_find LBRACE buffer = Some start"
      and "loads E (drop start buffer) = ExtraData pos"
      and "take pos (drop start buffer) = raw"
    for buffer start pos
    using that by (subst process_buffer.simps) (simp add: pm)
  from pm loop show ?thesis by simp
qed

theorem unparsable_message_counts_failed_witness:
  \<open>loads py_env (ascii ''{x'') \<noteq> Parsed
   \<and> process_message py_env (GELFForwarder py_env 1048576) (ascii ''{x'') =
       (GELFForwarder py_env 1048576)\<lparr>messages_failed := 1, dispatched := [ascii ''{x'']\<rparr>
   \<and> loads hasty_env (ascii ''{a'') \<noteq> Parsed
   \<and> str_find LBRACE (ascii ''{a}'') = Some 0
   \<and> loads hasty_env (drop 0 (ascii ''{a}'')) = ExtraData 2
   \<and> take 2 (drop 0 (ascii ''{a}'')) = ascii ''{a''
   \<and> process_buffer hasty_env (GELFForwarder hasty_env 1048576) (ascii ''{a}'') =
       Some ((GELFForwarder hasty_env 1048576)
               \<lparr>messages_failed := 1, dispatched := [ascii ''{a'']\<rparr>, Break [])\<close>
proof -
  let ?p = "GELFForwarder py_env 1048576" and ?h = "GELFForwarder hasty_env 1048576"
  have a: "loads py_env (ascii ''{x'') \<noteq> Parsed"
    by (simp add: py_env_def decoder_defs)
  have b: "loads hasty_env (ascii ''{a'') \<noteq> Parsed"
    by (simp add: hasty_env_def ascii_def)
  have f: "str_find LBRACE (ascii ''{a}'') = Some 0"
    by (simp add: ascii_def)
  have l: "loads hasty_env (drop 0 (ascii ''{a}'')) = ExtraData 2"
    by (simp add: hasty_env_def ascii_def)
  have t: "take 2 (drop 0 (ascii ''{a}'')) = ascii ''{a''"
    by (simp add: ascii_def)
  have rest: "process_buffer hasty_env st (drop (0 + 2) (ascii ''{a}'')) = Some (st, Break [])"
    for st
    by (subst process_buffer.simps) (simp add: ascii_def)
  from unparsable_message_counts_failed [OF a, of ?p]
  have c1: "process_message py_env ?p (ascii ''{x'') =
       ?p\<lparr>messages_failed := 1, dispatched := [ascii ''{x'']\<rparr>"
    by (simp add: GELFForwarder_def)
  from unparsable_message_counts_failed [OF b, of ?h] f l t
  have "process_buffer hasty_env ?h (ascii ''{a}'') =
          process_buffer hasty_env
            (?h\<lparr>messages_failed := messages_failed ?h + 1,
                dispatched := dispatched ?h @ [ascii ''{a'']\<rparr>)
            (drop (0 + 2) (ascii ''{a}''))"
    by blast
  then have c2: "process_buffer hasty_env ?h (ascii ''{a}'') =
       Some (?h\<lparr>messages_failed := 1, dispatched := [ascii ''{a'']\<rparr>, Break [])"
    by (simp only: rest) (simp add: GELFForwarder_def)
  from a b f l t c1 c2 show ?thesis by blast
qed

subsection \<open>Metrics\<close>

text \<open>
  Claim C8. \<^verbatim>\<open>log_metrics\<close> reads the clock. When less than the metrics interval has
  passed since the last snapshot, it reports nothing and resets nothing. Otherwise it
  logs one snapshot with the two counters as they stand, the failure rate
  \<open>failed / (processed + failed)\<close> as a percentage (0 when both counters are 0) and the
  number of connections, sets both counters to 0, keeps \<^verbatim>\<open>connections_handled\<close> and
  remembers the time. With 8 messages processed and 2 failed the snapshot reports 8, 2
  and 20 per cent, and a second call within the interval changes nothing.
\<close>

theorem metrics_snapshot:
  fixes E :: env and st :: forwarder
  defines "elapsed \<equiv> now E (time_calls st) - last_metrics_time st"
  shows "(elapsed < metrics_interval \<longrightarrow>
            log_metrics E st = st\<lparr>time_calls := Suc (time_calls st)\<rparr>)
       \<and> (elapsed \<ge> metrics_interval \<longrightarrow>
            reports (log_metrics E st) = reports st @
              [\<lparr>messages_per_second = real_of_int (messages_processed st) / elapsed,
                total_processed = messages_processed st,
                total_failed = messages_failed st,
                failure_rate =
                  (if messages_processed st + messages_failed st > 0
                   then real_of_int (messages_failed st)
                        / real_of_int (messages_processed st + messages_failed st) * 100
                   else 0),
                active_connections = connections_handled st\<rparr>]
          \<and> messages_processed (log_metrics E st) = 0
          \<and> messages_failed (log_metrics E st) = 0
          \<and> connections_handled (log_metrics E st) = connections_handled st
          \<and> last_metrics_time (log_metrics E st) = now E (time_calls st))"
  unfolding elapsed_def by (simp add: log_metrics_def Let_def)

theorem metrics_snapshot_witness:
  "now ticking_env (time_calls busy) - last_metrics_time busy \<ge> metrics_interval
   \<and> map failure_rate (reports (log_metrics ticking_env busy)) = [20]
   \<and> map total_processed (reports (log_metrics ticking_env busy)) = [8]
   \<and> map total_failed (reports (log_metrics ticking_env busy)) = [2]
   \<and> messages_processed (log_metrics ticking_env busy) = 0
   \<and> messages_failed (log_metrics ticking_env busy) = 0
   \<and> connections_handled (log_metrics ticking_env busy) = 1
   \<and> now ticking_env (time_calls (log_metrics ticking_env busy))
        - last_metrics_time (log_metrics ticking_env busy) < metrics_interval
   \<and> log_metrics ticking_env (log_metrics ticking_env busy) =
        (log_metrics ticking_env busy)\<lparr>time_calls := 3\<rparr>"
  using metrics_snapshot [of ticking_env busy]
    metrics_snapshot [of ticking_env "log_metrics ticking_env busy"]
  by (simp add: busy_def ticking_env_def GELFForwarder_def metrics_interval_def log_metrics_def)

subsection \<open>The forwarder\<close>

text \<open>
  Claim C5. One call of \<^verbatim>\<open>forward_to_function\<close> posts at most 3 requests. A response
  ends the call at once, whatever its status: \<^verbatim>\<open>process_message\<close> then counts the message
  as processed when the status is 200, 201 or 202 and as failed otherwise, without
  another request. After a \<^verbatim>\<open>RequestException\<close> on the first attempt the call sleeps 1
  and only then posts again, after one on the second attempt it sleeps 2 and only then
  posts again, and one on the third attempt is raised to \<^verbatim>\<open>process_message\<close> with no
  further sleep; \<^verbatim>\<open>process_message\<close> counts the message as failed. The order of the
  requests and the sleeps is that of the sequence \<open>effects\<close>. Here \<open>n\<close> is the number of
  requests made before the call.
\<close>

theorem forward_retry_policy:
  fixes E :: env and st :: forwarder and d :: pystr
  defines "n \<equiv> length (posted st)"
  defines "st0 \<equiv> st\<lparr>dispatched := dispatched st @ [d]\<rparr>"
  shows "(\<exists>tr. effects (snd (forward_to_function E st d)) = effects st @ tr
            \<and> posted (snd (forward_to_function E st d)) = posted st @ posts tr
            \<and> length (posts tr) \<le> 3)
    \<and> (\<forall>s. post E n d = Response s \<longrightarrow>
          forward_to_function E st d =
            (Returned s, st\<lparr>posted := posted st @ [d], effects := effects st @ [Post d]\<rparr>))
    \<and> (\<forall>s. post E n d = RequestException \<and> post E (n + 1) d = Response s \<longrightarrow>
          forward_to_function E st d =
            (Returned s, st\<lparr>posted := posted st @ [d, d], slept := slept st @ [1],
                           effects := effects st @ [Post d, Sleep 1, Post d]\<rparr>))
    \<and> (\<forall>s. post E n d = RequestException \<and> post E (n + 1) d = RequestException
            \<and> post E (n + 2) d = Response s \<longrightarrow>
          forward_to_function E st d =
            (Returned s, st\<lparr>posted := posted st @ [d, d, d], slept := slept st @ [1, 2],
                           effects := effects st @ [Post d, Sleep 1, Post d, Sleep 2, Post d]\<rparr>))
    \<and> (post E n d = RequestException \<and> post E (n + 1) d = RequestException
            \<and> post E (n + 2) d = RequestException \<longrightarrow>
          forward_to_function E st d =
            (Raised, st\<lparr>posted := posted st @ [d, d, d], slept := slept st @ [1, 2],
                        effects := effects st @ [Post d, Sleep 1, Post d, Sleep 2, Post d]\<rparr>))
    \<and> (\<forall>s st1. loads E d = Parsed \<and> forward_to_function E st0 d = (Returned s, st1) \<longrightarrow>
          process_message E st d =
            log_metrics E (if s \<in> {200, 201, 202} then count_processed st1
                           else count_failed st1))
    \<and> (\<forall>st1. loads E d = Parsed \<and> forward_to_function E st0 d = (Raised, st1) \<longrightarrow>
          process_message E st d = count_failed st1)"
proof -
  have bound: "\<exists>tr. effects (snd (forward_to_function E st d)) = effects st @ tr
            \<and> posted (snd (forward_to_function E st d)) = posted st @ posts tr
            \<and> length (posts tr) \<le> 3"
    using attempts_trace [of E "[0, 1, 2]" st d] by (auto simp: attempts_unroll)
  have cls: "process_message E st d =
            log_metrics E (if s \<in> {200, 201, 202} then count_processed st1
                           else count_failed st1)"
    if "loads E d = Parsed" "forward_to_function E st0 d = (Returned s, st1)" for s st1
    using that by (simp add: process_message_def st0_def)
  have rsd: "process_message E st d = count_failed st1"
    if "loads E d = Parsed" "forward_to_function E st0 d = (Raised, st1)" for st1
    using that by (simp add: process_message_def st0_def)
  have r1: "forward_to_function E st d =
            (Returned s, st\<lparr>posted := posted st @ [d], effects := effects st @ [Post d]\<rparr>)"
    if "post E n d = Response s" for s
    using that by (simp add: attempts_unroll n_def)
  have r2: "forward_to_function E st d =
            (Returned s, st\<lparr>posted := posted st @ [d, d], slept := slept st @ [1],
                           effects := effects st @ [Post d, Sleep 1, Post d]\<rparr>)"
    if "post E n d = RequestException \<and> post E (n + 1) d = Response s" for s
    using that by (simp add: attempts_unroll n_def retries_def retry_delay_def)
  have r3: "forward_to_function E st d =
            (Returned s, st\<lparr>posted := posted st @ [d, d, d], slept := slept st @ [1, 2],
                           effects := effects st @ [Post d, Sleep 1, Post d, Sleep 2, Post d]\<rparr>)"
    if "post E n d = RequestException \<and> post E (n + 1) d = RequestException
            \<and> post E (n + 2) d = Response s" for s
    using that by (simp add: attempts_unroll n_def retries_def retry_delay_def)
  have r4: "forward_to_function E st d =
            (Raised, st\<lparr>posted := posted st @ [d, d, d], slept := slept st @ [1, 2],
                        effects := effects st @ [Post d, Sleep 1, Post d, Sleep 2, Post d]\<rparr>)"
    if "post E n d = RequestException \<and> post E (n + 1) d = RequestException
            \<and> post E (n + 2) d = RequestException"
    using that by (simp add: attempts_unroll n_def retries_def retry_delay_def)
  from bound cls rsd r1 r2 r3 r4 show ?thesis by blast
qed

theorem forward_retry_policy_witness:
  \<open>forward_to_function py_env (GELFForwarder py_env 1048576) (ascii ''{"a":1}'') =
     (Returned 200, (GELFForwarder py_env 1048576)
        \<lparr>posted := [ascii ''{"a":1}''], effects := [Post (ascii ''{"a":1}'')]\<rparr>)
   \<and> messages_processed
        (process_message py_env (GELFForwarder py_env 1048576) (ascii ''{"a":1}'')) = 1
   \<and> messages_failed
        (process_message py_env (GELFForwarder py_env 1048576) (ascii ''{"a":1}'')) = 0
   \<and> forward_to_function rejecting_env (GELFForwarder rejecting_env 1048576) (ascii ''{"a":1}'') =
     (Returned 400, (GELFForwarder rejecting_env 1048576)
        \<lparr>posted := [ascii ''{"a":1}''], effects := [Post (ascii ''{"a":1}'')]\<rparr>)
   \<and> messages_processed
        (process_message rejecting_env (GELFForwarder rejecting_env 1048576) (ascii ''{"a":1}'')) = 0
   \<and> messages_failed
        (process_message rejecting_env (GELFForwarder rejecting_env 1048576) (ascii ''{"a":1}'')) = 1
   \<and> forward_to_function refusing_env (GELFForwarder refusing_env 1048576) (ascii ''{"a":1}'') =
     (Raised, (GELFForwarder refusing_env 1048576)
        \<lparr>posted := [ascii ''{"a":1}'', ascii ''{"a":1}'', ascii ''{"a":1}''], slept := [1, 2],
         effects := [Post (ascii ''{"a":1}''), Sleep 1, Post (ascii ''{"a":1}''), Sleep 2,
                     Post (ascii ''{"a":1}'')]\<rparr>)
   \<and> messages_processed
        (process_message refusing_env (GELFForwarder refusing_env 1048576) (ascii ''{"a":1}'')) = 0
   \<and> messages_failed
        (process_message refusing_env (GELFForwarder refusing_env 1048576) (ascii ''{"a":1}'')) = 1\<close>
proof -
  let ?d = \<open>ascii ''{"a":1}''\<close>
  have p: "loads E ?d = Parsed" if "loads E = json_loads" for E
    using that by (simp add: decoder_defs)
  have e: "loads py_env = json_loads" "loads rejecting_env = json_loads"
    "loads refusing_env = json_loads"
    by (simp_all add: py_env_def rejecting_env_def refusing_env_def)
  note a = forward_retry_policy [of py_env "GELFForwarder py_env 1048576" ?d]
  note a0 = forward_retry_policy [of py_env
      "(GELFForwarder py_env 1048576)\<lparr>dispatched := [?d]\<rparr>" ?d]
  note b = forward_retry_policy [of rejecting_env "GELFForwarder rejecting_env 1048576" ?d]
  note b0 = forward_retry_policy [of rejecting_env
      "(GELFForwarder rejecting_env 1048576)\<lparr>dispatched := [?d]\<rparr>" ?d]
  note c = forward_retry_policy [of refusing_env "GELFForwarder refusing_env 1048576" ?d]
  note c0 = forward_retry_policy [of refusing_env
      "(GELFForwarder refusing_env 1048576)\<lparr>dispatched := [?d]\<rparr>" ?d]
  have a1: "forward_to_function py_env (GELFForwarder py_env 1048576) ?d =
     (Returned 200, (GELFForwarder py_env 1048576)\<lparr>posted := [?d], effects := [Post ?d]\<rparr>)"
    using a by (simp add: py_env_def GELFForwarder_def)
  have a2: "forward_to_function py_env ((GELFForwarder py_env 1048576)\<lparr>dispatched := [?d]\<rparr>) ?d =
     (Returned 200, (GELFForwarder py_env 1048576)
        \<lparr>dispatched := [?d], posted := [?d], effects := [Post ?d]\<rparr>)"
    using a0 by (simp add: py_env_def GELFForwarder_def)
  have a3: "process_message py_env (GELFForwarder py_env 1048576) ?d =
     log_metrics py_env (count_processed
        ((GELFForwarder py_env 1048576)
           \<lparr>dispatched := [?d], posted := [?d], effects := [Post ?d]\<rparr>))"
    using a a2 p [OF e(1)] by (simp add: GELFForwarder_def)
  have b1: "forward_to_function rejecting_env (GELFForwarder rejecting_env 1048576) ?d =
     (Returned 400, (GELFForwarder rejecting_env 1048576)
        \<lparr>posted := [?d], effects := [Post ?d]\<rparr>)"
    using b by (simp add: rejecting_env_def GELFForwarder_def)
  have b2: "forward_to_function rejecting_env
       ((GELFForwarder rejecting_env 1048576)\<lparr>dispatched := [?d]\<rparr>) ?d =
     (Returned 400, (GELFForwarder rejecting_env 1048576)
        \<lparr>dispatched := [?d], posted := [?d], effects := [Post ?d]\<rparr>)"
    using b0 by (simp add: rejecting_env_def GELFForwarder_def)
  have b3: "process_message rejecting_env (GELFForwarder rejecting_env 1048576) ?d =
     log_metrics rejecting_env (count_failed
        ((GELFForwarder rejecting_env 1048576)
           \<lparr>dispatched := [?d], posted := [?d], effects := [Post ?d]\<rparr>))"
    using b b2 p [OF e(2)] by (simp add: GELFForwarder_def)
  have c1: "forward_to_function refusing_env (GELFForwarder refusing_env 1048576) ?d =
     (Raised, (GELFForwarder refusing_env 1048576)\<lparr>posted := [?d, ?d, ?d], slept := [1, 2],
        effects := [Post ?d, Sleep 1, Post ?d, Sleep 2, Post ?d]\<rparr>)"
    using c by (simp add: refusing_env_def GELFForwarder_def)
  have c2: "forward_to_function refusing_env
       ((GELFForwarder refusing_env 1048576)\<lparr>dispatched := [?d]\<rparr>) ?d =
     (Raised, (GELFForwarder refusing_env 1048576)
        \<lparr>dispatched := [?d], posted := [?d, ?d, ?d], slept := [1, 2],
         effects := [Post ?d, Sleep 1, Post ?d, Sleep 2, Post ?d]\<rparr>)"
    using c0 by (simp add: refusing_env_def GELFForwarder_def)
  have c3: "process_message refusing_env (GELFForwarder refusing_env 1048576) ?d =
     count_failed ((GELFForwarder refusing_env 1048576)
        \<lparr>dispatched := [?d], posted := [?d, ?d, ?d], slept := [1, 2],
         effects := [Post ?d, Sleep 1, Post ?d, Sleep 2, Post ?d]\<rparr>)"
    using c c2 p [OF e(3)] by (simp add: GELFForwarder_def)
  show ?thesis
    unfolding a1 a3 b1 b3 c1 c3
    by (simp add: log_metrics_def count_processed_def count_failed_def GELFForwarder_def
        metrics_interval_def py_env_def rejecting_env_def refusing_env_def)
qed

subsection \<open>The connection counter\<close>

text \<open>
  Claim C10 says that the counter goes up by one whenever a handler starts. The first
  statement of \<^verbatim>\<open>handle_client\<close> that can fail comes before the increment: with a
  \<^verbatim>\<open>connection_timeout\<close> of -1, which the command line accepts, \<^verbatim>\<open>settimeout\<close> raises
  \<^verbatim>\<open>ValueError\<close>, the handler ends there and the counter is still 0.
\<close>

theorem refused_timeout_skips_increment:
  \<open>\<not> settimeout py_env (- 1)
   \<and> connections_handled ((GELFForwarder py_env 1048576)\<lparr>connection_timeout := - 1\<rparr>) = 0
   \<and> map_option (\<lambda>(st, c). (connections_handled st, c))
        (handle_client py_env ((GELFForwarder py_env 1048576)\<lparr>connection_timeout := - 1\<rparr>)
           [Recv ''{"a":1}'', Recv []])
       = Some (0, Died)\<close>
  by (simp add: handle_client_def py_env_def accepts_timeout_def GELFForwarder_def)

text \<open>
  Claim C10, with that condition. When the socket accepts the configured time-out,
  \<^verbatim>\<open>handle_client\<close> adds one to \<^verbatim>\<open>connections_handled\<close> when it starts, and nothing else
  in the handler, the dispatcher or the metrics assigns the counter: when the handler
  has consumed its input the counter is one more than before, whether the connection
  was closed or not (with a decoder that reports extra data only behind a value the
  handler always gets there). In no case does a handler lower the counter, and
  \<^verbatim>\<open>log_metrics\<close> keeps it when it resets the other two counters. The counter is the
  number of connections handled so far, and it is this number that a snapshot logs as
  \<^verbatim>\<open>Active connections\<close>. Handlers are modelled one at a time; interleaved updates by
  concurrent threads are outside the model.
\<close>

theorem connections_handled_counts_up:
  "(settimeout E (connection_timeout st) \<longrightarrow>
      (\<forall>st' c. handle_client E st evs = Some (st', c) \<longrightarrow>
         connections_handled st' = connections_handled st + 1))
   \<and> (settimeout E (connection_timeout st) \<and> advancing E \<longrightarrow>
        (\<exists>st' c. handle_client E st evs = Some (st', c)
           \<and> connections_handled st' = connections_handled st + 1))
   \<and> (\<forall>st' c. handle_client E st evs = Some (st', c) \<longrightarrow>
         connections_handled st \<le> connections_handled st')
   \<and> connections_handled (process_message E st m) = connections_handled st
   \<and> connections_handled (log_metrics E st) = connections_handled st
   \<and> (now E (time_calls st) - last_metrics_time st \<ge> metrics_interval \<longrightarrow>
        map active_connections (reports (log_metrics E st)) =
          map active_connections (reports st) @ [connections_handled st])"
proof -
  let ?st1 = "st\<lparr>connections_handled := connections_handled st + 1\<rparr>"
  have a: "connections_handled st' = connections_handled st + 1"
    if "settimeout E (connection_timeout st)" "handle_client E st evs = Some (st', c)" for st' c
  proof -
    from that have "recv_loop E ?st1 [] evs = Some (st', c)" by (simp add: handle_client_def)
    from recv_loop_connections [OF this] show ?thesis by simp
  qed
  have b: "\<exists>st' c. handle_client E st evs = Some (st', c)
           \<and> connections_handled st' = connections_handled st + 1"
    if "settimeout E (connection_timeout st)" "advancing E"
  proof -
    from recv_loop_returns [OF that(2), of ?st1 "[]" evs] obtain st' c where
      "recv_loop E ?st1 [] evs = Some (st', c)" by blast
    with that(1) have "handle_client E st evs = Some (st', c)" by (simp add: handle_client_def)
    with a [OF that(1) this] show ?thesis by blast
  qed
  have m: "connections_handled st \<le> connections_handled st'"
    if "handle_client E st evs = Some (st', c)" for st' c
  proof (cases "settimeout E (connection_timeout st)")
    case True
    from a [OF True that] show ?thesis by simp
  next
    case False
    with that show ?thesis by (simp add: handle_client_def)
  qed
  have c: "map active_connections (reports (log_metrics E st)) =
          map active_connections (reports st) @ [connections_handled st]"
    if "now E (time_calls st) - last_metrics_time st \<ge> metrics_interval"
    using that by (simp add: log_metrics_def Let_def)
  from a b m c show ?thesis
    by (simp add: process_message_connections log_metrics_frame)
qed

theorem connections_handled_counts_up_witness:
  \<open>settimeout py_env (connection_timeout (GELFForwarder py_env 1048576))
   \<and> advancing py_env
   \<and> map_option (\<lambda>(st, c). (connections_handled st, c))
        (handle_client py_env (GELFForwarder py_env 1048576) [Recv ''{"a":1}'', Recv []])
       = Some (1, Closed)
   \<and> map_option (\<lambda>(st, c). (connections_handled st, c))
        (handle_client py_env ((GELFForwarder py_env 1048576)\<lparr>connections_handled := 1\<rparr>)
           [RecvError])
       = Some (2, Closed)
   \<and> now ticking_env (time_calls busy) - last_metrics_time busy \<ge> metrics_interval
   \<and> connections_handled (log_metrics ticking_env busy) = 1
   \<and> map active_connections (reports (log_metrics ticking_env busy)) = [1]\<close>
proof -
  let ?evs = \<open>[Recv ''{"a":1}'', Recv []]\<close>
  let ?st0 = "GELFForwarder py_env 1048576"
  let ?st1 = "(GELFForwarder py_env 1048576)\<lparr>connections_handled := 1\<rparr>"
  have s: "settimeout py_env (connection_timeout ?st0)"
    "settimeout py_env (connection_timeout ?st1)"
    by (simp_all add: py_env_def accepts_timeout_def GELFForwarder_def)
  have adv: "advancing py_env" by (rule model_advancing) (simp add: py_env_def)
  have c1: "\<exists>st. handle_client py_env ?st0 ?evs = Some (st, Closed)"
    by (simp add: program_defs decoder_defs py_env_def upt_rec)
  have c2: "\<exists>st. handle_client py_env ?st1 [RecvError] = Some (st, Closed)"
    by (simp add: handle_client_def py_env_def accepts_timeout_def GELFForwarder_def)
  have t: "now ticking_env (time_calls busy) - last_metrics_time busy \<ge> metrics_interval"
    by (simp add: busy_def ticking_env_def GELFForwarder_def metrics_interval_def)
  note w1 = connections_handled_counts_up [of py_env ?st0 ?evs]
  note w2 = connections_handled_counts_up [of py_env ?st1 "[RecvError]"]
  note w3 = connections_handled_counts_up [of ticking_env busy]
  from c1 w1 s(1) have r1: "map_option (\<lambda>(st, c). (connections_handled st, c))
        (handle_client py_env ?st0 ?evs) = Some (1, Closed)"
    by (auto simp: GELFForwarder_def)
  from c2 w2 s(2) have r2: "map_option (\<lambda>(st, c). (connections_handled st, c))
        (handle_client py_env ?st1 [RecvError]) = Some (2, Closed)"
    by (auto simp: GELFForwarder_def)
  from t w3 have r3: "connections_handled (log_metrics ticking_env busy) = 1"
    "map active_connections (reports (log_metrics ticking_env busy)) = [1]"
    by (simp_all add: busy_def GELFForwarder_def)
  from s(1) adv r1 r2 t r3 show ?thesis by blast
qed

subsection \<open>Two records in one chunk\<close>

text \<open>
  Claim C4. Two records, each starting with an opening brace, arrive one after the
  other in one chunk, and the buffer was empty. The decoder parses each of them and
  reports extra data at the end of the first when given both, as \<^verbatim>\<open>json.loads\<close> does
  for records it accepts (and as the decoder model does for all serialized records, by
  \<open>record_loads\<close> and \<open>model_boundary\<close>). Then the extraction loop hands the first and
  then the second to the dispatcher, each equal to its input, and leaves the buffer
  empty. The dispatcher forwards them in that order: all requests for the first record
  (between one and three, by the retry policy) are posted before those for the second.
  The witness is the chunk \<^verbatim>\<open>{"a":1}{"b":2}\<close> with a server that answers 200.
\<close>

theorem two_records_in_one_chunk:
  fixes E :: env and st :: forwarder
  assumes "take 1 r1 = [LBRACE]" and "take 1 r2 = [LBRACE]"
    and "loads E r1 = Parsed" and "loads E r2 = Parsed"
    and "loads E (r1 @ r2) = ExtraData (length r1)"
    and "data \<noteq> []" and "utf8_decode data = Some (r1 @ r2)"
  defines "st' \<equiv> process_message E (process_message E st r1) r2"
  shows "process_buffer E st (r1 @ r2) = Some (st', Break [])
       \<and> recv_loop E st [] (Recv data # evs) = recv_loop E st' [] evs
       \<and> dispatched st' = dispatched st @ [r1, r2]
       \<and> (\<exists>j k. 1 \<le> j \<and> j \<le> 3 \<and> 1 \<le> k \<and> k \<le> 3
             \<and> posted st' = posted st @ replicate j r1 @ replicate k r2)"
proof -
  from assms(1) have "take 1 (r1 @ r2) = [LBRACE]" by (cases r1) auto
  then have f: "str_find LBRACE (r1 @ r2) = Some 0" by (rule str_find_first)
  from assms(5) have l: "loads E (drop 0 (r1 @ r2)) = ExtraData (length r1)" by simp
  have "process_buffer E st (r1 @ r2) = process_buffer E (process_message E st r1) r2"
    using f l by (subst process_buffer.simps) simp
  also have "\<dots> = Some (st', Break [])"
    unfolding st'_def by (rule record_whole [OF assms(2,4)])
  finally have pb: "process_buffer E st (r1 @ r2) = Some (st', Break [])" .
  with assms(6,7) have rl: "recv_loop E st [] (Recv data # evs) = recv_loop E st' [] evs"
    by simp
  have d: "dispatched st' = dispatched st @ [r1, r2]"
    by (simp add: st'_def process_message_dispatched)
  from process_message_posted [OF assms(3), of st] obtain j where
    j: "1 \<le> j" "j \<le> 3" "posted (process_message E st r1) = posted st @ replicate j r1" by blast
  from process_message_posted [OF assms(4), of "process_message E st r1"] obtain k where
    k: "1 \<le> k" "k \<le> 3" "posted st' = posted (process_message E st r1) @ replicate k r2"
    unfolding st'_def by blast
  from j k have "\<exists>j k. 1 \<le> j \<and> j \<le> 3 \<and> 1 \<le> k \<and> k \<le> 3
             \<and> posted st' = posted st @ replicate j r1 @ replicate k r2"
    by (intro exI [of _ j] exI [of _ k]) simp
  with pb rl d show ?thesis by blast
qed

theorem two_records_in_one_chunk_witness:
  \<open>take 1 (ascii ''{"a":1}'') = [LBRACE] \<and> take 1 (ascii ''{"b":2}'') = [LBRACE]
   \<and> loads py_env (ascii ''{"a":1}'') = Parsed \<and> loads py_env (ascii ''{"b":2}'') = Parsed
   \<and> loads py_env (ascii ''{"a":1}'' @ ascii ''{"b":2}'')
       = ExtraData (length (ascii ''{"a":1}''))
   \<and> ''{"a":1}{"b":2}'' \<noteq> []
   \<and> utf8_decode ''{"a":1}{"b":2}'' = Some (ascii ''{"a":1}'' @ ascii ''{"b":2}'')
   \<and> map_option (\<lambda>(st, c). (dispatched st, posted st, effects st, c))
        (handle_client py_env (GELFForwarder py_env 1048576) [Recv ''{"a":1}{"b":2}''])
       = Some ([ascii ''{"a":1}'', ascii ''{"b":2}''],
               [ascii ''{"a":1}'', ascii ''{"b":2}''],
               [Post (ascii ''{"a":1}''), Post (ascii ''{"b":2}'')], Reading [])\<close>
proof -
  let ?r1 = \<open>ascii ''{"a":1}''\<close> and ?r2 = \<open>ascii ''{"b":2}''\<close>
  let ?d = \<open>''{"a":1}{"b":2}''\<close>
  let ?st = "(GELFForwarder py_env 1048576)\<lparr>connections_handled := 1\<rparr>"
  have b1: "take 1 ?r1 = [LBRACE]" and b2: "take 1 ?r2 = [LBRACE]" by (simp_all add: ascii_def)
  have p1: "loads py_env ?r1 = Parsed" and p2: "loads py_env ?r2 = Parsed"
    by (simp_all add: py_env_def decoder_defs)
  have x: "loads py_env (?r1 @ ?r2) = ExtraData (length ?r1)"
    by (simp add: py_env_def decoder_defs)
  have n: "?d \<noteq> []" by simp
  have u: "utf8_decode ?d = Some (?r1 @ ?r2)" by (simp add: utf8_decode_def ascii_def)
  note w = two_records_in_one_chunk [OF b1 b2 p1 p2 x n u, of ?st "[]"]
  have pm: "posted (process_message py_env (process_message py_env ?st ?r1) ?r2) = [?r1, ?r2]"
    "effects (process_message py_env (process_message py_env ?st ?r1) ?r2)
       = [Post ?r1, Post ?r2]"
    by (simp_all add: program_defs decoder_defs py_env_def upt_rec)
  have t: "settimeout py_env (connection_timeout (GELFForwarder py_env 1048576))"
    by (simp add: py_env_def accepts_timeout_def GELFForwarder_def)
  from w t have "handle_client py_env (GELFForwarder py_env 1048576) [Recv ?d] =
      Some (process_message py_env (process_message py_env ?st ?r1) ?r2, Reading [])"
    and "dispatched (process_message py_env (process_message py_env ?st ?r1) ?r2) = [?r1, ?r2]"
    by (simp_all add: handle_client_def GELFForwarder_def)
  with pm have "map_option (\<lambda>(st, c). (dispatched st, posted st, effects st, c))
        (handle_client py_env (GELFForwarder py_env 1048576) [Recv ?d])
       = Some ([?r1, ?r2], [?r1, ?r2], [Post ?r1, Post ?r2], Reading [])" by simp
  with b1 b2 p1 p2 x n u show ?thesis by blast
qed

subsection \<open>Parses that fail\<close>

text \<open>
  The text \<^verbatim>\<open>{x\<close> is not the beginning of any JSON text: the decoder model rejects it
  whatever follows.
\<close>

lemma malformed_never_completes: "json_loads (ascii ''{x'' @ t) = DecodeError"
  by (simp add: decoder_defs)

text \<open>
  Claim C3 asks that content which no further input can complete is discarded, so that
  the decoder does not stay stuck on it. The handler does not do that. Its only test
  is whether the message of the \<^verbatim>\<open>JSONDecodeError\<close> contains \<^verbatim>\<open>Extra data\<close>; every other
  failure takes the branch \<^verbatim>\<open>else: break\<close>, which keeps the buffer. After the chunk
  \<^verbatim>\<open>{x\<close> the buffer is \<^verbatim>\<open>{x\<close>, not empty, and two complete records that arrive afterwards
  are appended to it and never dispatched.
\<close>

theorem malformed_prefix_is_kept:
  \<open>json_loads (ascii ''{x'') = DecodeError
   \<and> process_buffer py_env (GELFForwarder py_env 1048576) (ascii ''{x'')
       = Some (GELFForwarder py_env 1048576, Break (ascii ''{x''))
   \<and> process_buffer py_env (GELFForwarder py_env 1048576) (ascii ''{x'')
       \<noteq> Some (GELFForwarder py_env 1048576, Break [])
   \<and> map_option (\<lambda>(st, c). (dispatched st, c))
        (handle_client py_env (GELFForwarder py_env 1048576)
           [Recv ''{x'', Recv ''{"a":1}'', Recv ''{"b":2}''])
       = Some ([], Reading (ascii ''{x{"a":1}{"b":2}''))\<close>
  by (simp add: program_defs decoder_defs py_env_def)

text \<open>
  Claim C3, as the handler implements it. When the parse of the buffer from its first
  opening brace fails with a \<^verbatim>\<open>JSONDecodeError\<close> other than \<^verbatim>\<open>Extra data\<close>, whether the
  content is incomplete or malformed, the extraction loop stops, dispatches nothing and
  keeps the whole buffer: the handler goes on to the next \<^verbatim>\<open>recv\<close> with the buffer as it
  is, for every decoder.
\<close>

theorem failed_parse_keeps_buffer:
  assumes "data \<noteq> []"
    and "utf8_decode data = Some decoded_data"
    and "str_find LBRACE (buffer @ decoded_data) = Some start"
    and "loads E (drop start (buffer @ decoded_data)) = DecodeError"
  shows "process_buffer E st (buffer @ decoded_data) = Some (st, Break (buffer @ decoded_data))
       \<and> recv_loop E st buffer (Recv data # evs) = recv_loop E st (buffer @ decoded_data) evs"
proof -
  from assms(3,4)
  have "process_buffer E st (buffer @ decoded_data) = Some (st, Break (buffer @ decoded_data))"
    by (subst process_buffer.simps) simp
  with assms(1,2) show ?thesis by simp
qed

theorem failed_parse_keeps_buffer_witness:
  \<open>''{x'' \<noteq> []
   \<and> utf8_decode ''{x'' = Some (ascii ''{x'')
   \<and> str_find LBRACE ([] @ ascii ''{x'') = Some 0
   \<and> loads py_env (drop 0 ([] @ ascii ''{x'')) = DecodeError
   \<and> recv_loop py_env (GELFForwarder py_env 1048576) [] [Recv ''{x'']
       = Some (GELFForwarder py_env 1048576, Reading (ascii ''{x''))\<close>
proof -
  have n: \<open>''{x'' \<noteq> []\<close> by simp
  have u: \<open>utf8_decode ''{x'' = Some (ascii ''{x'')\<close> by (simp add: utf8_decode_def ascii_def)
  have f: \<open>str_find LBRACE ([] @ ascii ''{x'') = Some 0\<close> by (simp add: ascii_def)
  have l: \<open>loads py_env (drop 0 ([] @ ascii ''{x'')) = DecodeError\<close>
    by (simp add: py_env_def decoder_defs)
  from failed_parse_keeps_buffer [OF n u f l, of "GELFForwarder py_env 1048576" "[]"]
  have \<open>recv_loop py_env (GELFForwarder py_env 1048576) [] [Recv ''{x'']
       = Some (GELFForwarder py_env 1048576, Reading (ascii ''{x''))\<close> by simp
  with n u f l show ?thesis by blast
qed

subsection \<open>The buffer ceiling\<close>

text \<open>
  Claim C1 asks that a buffer longer than \<^verbatim>\<open>max_message_size\<close> that holds no complete
  object is discarded and that the oversized record is never dispatched. The handler
  runs here with a limit of 8. After a chunk of 16 characters that is the beginning of
  a record it keeps all 16 in the buffer, and when the rest of the record arrives it
  dispatches and posts the record of 18 characters.
\<close>

theorem oversized_buffer_is_kept:
  \<open>max_message_size (GELFForwarder py_env 8) = 8
   \<and> map_option snd
        (handle_client py_env (GELFForwarder py_env 8) [Recv ''{"a":"0123456789''])
       = Some (Reading (ascii ''{"a":"0123456789''))
   \<and> int (length (ascii ''{"a":"0123456789'')) > max_message_size (GELFForwarder py_env 8)
   \<and> map_option (\<lambda>(st, c). (dispatched st, posted st, c))
        (handle_client py_env (GELFForwarder py_env 8)
           [Recv ''{"a":"0123456789'', Recv ''"}''])
       = Some ([ascii ''{"a":"0123456789"}''], [ascii ''{"a":"0123456789"}''], Reading [])\<close>
  by (simp add: program_defs decoder_defs py_env_def upt_rec)

subsection \<open>A record cut inside a character\<close>

text \<open>
  Claim C2 asks that a record is dispatched exactly once for every way of cutting its
  bytes into chunks. The record \<^verbatim>\<open>{"a":"\<close>U+00E9\<^verbatim>\<open>"}\<close> is 10 bytes of UTF-8. Received
  in one chunk it is dispatched. Cut between the two bytes of U+00E9, the first chunk
  does not decode, the connection is closed and the record is never dispatched.
\<close>

theorem split_character_closes_connection:
  \<open>utf8_decode (''{"a":"'' @ [CHR 0xC3, CHR 0xA9] @ ''"}'')
       = Some (ascii ''{"a":"'' @ [233] @ ascii ''"}'')
   \<and> serialized_record (ascii ''{"a":"'' @ [233] @ ascii ''"}'')
   \<and> map_option (\<lambda>(st, c). (dispatched st, c))
        (handle_client py_env (GELFForwarder py_env 1048576)
           [Recv (''{"a":"'' @ [CHR 0xC3, CHR 0xA9] @ ''"}'')])
       = Some ([ascii ''{"a":"'' @ [233] @ ascii ''"}''], Reading [])
   \<and> map_option (\<lambda>(st, c). (dispatched st, c))
        (handle_client py_env (GELFForwarder py_env 1048576)
           [Recv (''{"a":"'' @ [CHR 0xC3]), Recv ([CHR 0xA9] @ ''"}'')])
       = Some ([], Closed)\<close>
  by (simp add: program_defs decoder_defs py_env_def serialized_record_def upt_rec)

end
